theory Spec2Isabelle
  imports Main
begin

section \<open>kkonfig: defaults, JSON files and environment variables into a struct\<close>

text \<open>
  The package walks a caller-supplied struct through Go's \<^verbatim>\<open>reflect\<close> package. The
  embedding therefore models the part of reflection the code uses: type descriptors
  (kind, name, package path, rendering, method sets, struct fields with their tags) and
  values. A \<^verbatim>\<open>reflect.Value\<close> handle of the source is a pair of a type descriptor and
  a value; writing through a handle is modelled by returning the updated value.

  Every function returns the error (if any) together with the state it leaves behind,
  because the source mutates the struct in place and does not roll back on failure.

  Pointers are modelled as owned cells: two pointer fields never share a pointee.
\<close>

subsection \<open>Errors\<close>

text \<open>
  \<^verbatim>\<open>ErrInvalidSpecification\<close> and \<^verbatim>\<open>ParseError\<close> are the package's own errors
  (the fields of \<open>ParseError\<close> are KeyName, FieldName, TypeName, Value, Err, in the order of
  the source). \<open>ExternalError\<close> stands for any error made outside the package
  (\<^verbatim>\<open>strconv\<close>, \<^verbatim>\<open>time\<close>, \<^verbatim>\<open>ioutil\<close>, \<^verbatim>\<open>json\<close>, user methods), identified by its message.
\<close>

datatype error =
    ErrInvalidSpecification
  | ParseError (KeyName: string) (FieldName: string) (TypeName: string) (Value: string) (Err: error)
  | ExternalError string

subsection \<open>Values\<close>

text \<open>
  Floating-point numbers are only carried around, never computed with:
  \<open>Finite m e\<close> is the number \<open>m * 2 ^ e\<close>.
\<close>

datatype float = Finite int int | Infinite bool | NaN

text \<open>
  \<open>VPtr None\<close> is the nil pointer. A nil slice and an empty slice are both \<open>VSlice []\<close>
  (the code never tells them apart). \<open>VOther\<close> is a value of a kind the code does not look
  into (array, chan, func, interface, map, complex, uintptr, unsafe pointer).
\<close>

datatype gval =
    VBool bool
  | VInt int
  | VUint nat
  | VFloat float
  | VString string
  | VSlice "gval list"
  | VPtr "gval option"
  | VStruct "gval list"
  | VOther string

subsection \<open>Type descriptors\<close>

text \<open>
  A method of one of the three interfaces \<^verbatim>\<open>Decoder\<close>, \<^verbatim>\<open>Setter\<close>,
  \<^verbatim>\<open>encoding.TextUnmarshaler\<close> is user code: it receives the string (or its bytes) and
  the current value of the field it is called on, and returns its error and the value the
  field has afterwards.
\<close>

type_synonym conversion = "string \<Rightarrow> gval \<Rightarrow> error option \<times> gval"

record methodset =
  mDecode :: "conversion option"
  mSet :: "conversion option"
  mUnmarshalText :: "conversion option"

text \<open>
  What \<^verbatim>\<open>reflect.Type\<close> tells about a type besides its kind: \<^verbatim>\<open>Name()\<close>,
  \<^verbatim>\<open>PkgPath()\<close>, \<^verbatim>\<open>String()\<close>, the method set of the type itself (what a value
  of the type satisfies when put in an interface) and the method set of the pointer to it
  (what \<^verbatim>\<open>field.Addr().Interface()\<close> satisfies).
\<close>

record tinfo =
  tName :: string
  PkgPath :: string
  tString :: string
  methods :: methodset
  ptr_methods :: methodset

text \<open>The sizes of the integer kinds: \<open>W\<close> is \<^verbatim>\<open>int\<close>/\<^verbatim>\<open>uint\<close> of platform size.\<close>

datatype width = W | W8 | W16 | W32 | W64

datatype fwidth = F32 | F64

text \<open>
  A struct field as \<^verbatim>\<open>reflect.StructField\<close> describes it: name, tag (as the list of
  its key/value pairs), the \<^verbatim>\<open>Anonymous\<close> flag, whether the field is exported (an
  unexported field cannot be set through reflection), and its type.
\<close>

datatype gtype =
    TBool tinfo
  | TInt tinfo width
  | TUint tinfo width
  | TFloat tinfo fwidth
  | TString tinfo
  | TSlice tinfo gtype
  | TPtr tinfo gtype
  | TStruct tinfo "sfield list"
  | TOther tinfo
and sfield =
    SField (fName: string) (Tag: "(string \<times> string) list") (Anonymous: bool)
           (Exported: bool) (fType: gtype)

datatype kind =
    KInvalid | KBool | KInt width | KUint width | KFloat fwidth | KString
  | KSlice | KPtr | KStruct | KOther

fun info :: "gtype \<Rightarrow> tinfo" where
  "info (TBool i) = i"
| "info (TInt i w) = i"
| "info (TUint i w) = i"
| "info (TFloat i w) = i"
| "info (TString i) = i"
| "info (TSlice i t) = i"
| "info (TPtr i t) = i"
| "info (TStruct i fs) = i"
| "info (TOther i) = i"

fun Kind :: "gtype \<Rightarrow> kind" where
  "Kind (TBool i) = KBool"
| "Kind (TInt i w) = KInt w"
| "Kind (TUint i w) = KUint w"
| "Kind (TFloat i w) = KFloat w"
| "Kind (TString i) = KString"
| "Kind (TSlice i t) = KSlice"
| "Kind (TPtr i t) = KPtr"
| "Kind (TStruct i fs) = KStruct"
| "Kind (TOther i) = KOther"

text \<open>The zero value of a type, as \<^verbatim>\<open>reflect.New\<close> and \<^verbatim>\<open>reflect.MakeSlice\<close> make it.\<close>

fun zero :: "gtype \<Rightarrow> gval" and zeros :: "sfield list \<Rightarrow> gval list" where
  "zero (TBool i) = VBool False"
| "zero (TInt i w) = VInt 0"
| "zero (TUint i w) = VUint 0"
| "zero (TFloat i w) = VFloat (Finite 0 0)"
| "zero (TString i) = VString []"
| "zero (TSlice i t) = VSlice []"
| "zero (TPtr i t) = VPtr None"
| "zero (TStruct i fs) = VStruct (zeros fs)"
| "zero (TOther i) = VOther []"
| "zeros [] = []"
| "zeros (SField n tg a e t # fs) = zero t # zeros fs"

text \<open>\<^verbatim>\<open>IsNil\<close> and \<^verbatim>\<open>Elem\<close> of a pointer handle.\<close>

fun IsNil :: "gval \<Rightarrow> bool" where
  "IsNil (VPtr (Some v)) = False"
| "IsNil v = True"

fun Elem :: "gval \<Rightarrow> gval" where
  "Elem (VPtr (Some v)) = v"
| "Elem v = v"

fun fieldsOf :: "gval \<Rightarrow> gval list" where
  "fieldsOf (VStruct vs) = vs"
| "fieldsOf v = []"

text \<open>\<^verbatim>\<open>Tag.Lookup\<close> and \<^verbatim>\<open>Tag.Get\<close>.\<close>

definition Lookup :: "(string \<times> string) list \<Rightarrow> string \<Rightarrow> string option" where
  "Lookup tag k = map_of tag k"

definition Get :: "(string \<times> string) list \<Rightarrow> string \<Rightarrow> string" where
  "Get tag k = (case map_of tag k of Some v \<Rightarrow> v | None \<Rightarrow> [])"

subsection \<open>What the package calls outside itself\<close>

text \<open>
  Modelled from the spec: \<^verbatim>\<open>lookupEnv\<close>, which the environment pass calls and whose
  definition is in a file of the repository that is not among the sources. Given a key it
  returns an optional string, telling an absent key (\<open>None\<close>) from a key that is present
  with an empty value (\<open>Some []\<close>). It is the field \<open>lookupEnv\<close> of the parameters below.

  The other parameters are what the package calls in Go's libraries: the file system
  (\<^verbatim>\<open>ioutil.ReadFile\<close>), the JSON decoder (\<^verbatim>\<open>json.Unmarshal\<close>, which may change
  the struct even when it reports an error), the parsers of \<^verbatim>\<open>strconv\<close> (with their
  base and bit-size arguments), \<^verbatim>\<open>time.ParseDuration\<close>, the platform's \<^verbatim>\<open>int\<close>
  size, and the non-ASCII part of \<^verbatim>\<open>strings.ToUpper\<close>.
\<close>

record lib =
  lookupEnv :: "string \<Rightarrow> string option"
  ReadFile :: "string \<Rightarrow> error + string"
  Unmarshal :: "string \<Rightarrow> gtype \<Rightarrow> gval \<Rightarrow> error option \<times> gval"
  ParseInt :: "string \<Rightarrow> nat \<Rightarrow> nat \<Rightarrow> error + int"
  ParseUint :: "string \<Rightarrow> nat \<Rightarrow> nat \<Rightarrow> error + nat"
  ParseBool :: "string \<Rightarrow> error + bool"
  ParseFloat :: "string \<Rightarrow> nat \<Rightarrow> error + float"
  ParseDuration :: "string \<Rightarrow> error + int"
  IntSize :: nat
  ToUpperUnicode :: "string \<Rightarrow> string"

text \<open>\<^verbatim>\<open>typ.Bits()\<close>.\<close>

fun Bits :: "lib \<Rightarrow> width \<Rightarrow> nat" where
  "Bits L W = IntSize L"
| "Bits L W8 = 8"
| "Bits L W16 = 16"
| "Bits L W32 = 32"
| "Bits L W64 = 64"

fun FBits :: "fwidth \<Rightarrow> nat" where
  "FBits F32 = 32"
| "FBits F64 = 64"

text \<open>
  \<^verbatim>\<open>SetInt\<close> and \<^verbatim>\<open>SetUint\<close> store an \<^verbatim>\<open>int64\<close>/\<^verbatim>\<open>uint64\<close> into a field of
  the given size, truncating. (\<^verbatim>\<open>SetFloat\<close> stores the number \<^verbatim>\<open>ParseFloat\<close> returned for
  the field's size as it is.)
\<close>

definition SetInt :: "nat \<Rightarrow> int \<Rightarrow> gval" where
  "SetInt bits x = VInt ((x + 2 ^ (bits - 1)) mod 2 ^ bits - 2 ^ (bits - 1))"

definition SetUint :: "nat \<Rightarrow> nat \<Rightarrow> gval" where
  "SetUint bits x = VUint (x mod 2 ^ bits)"

text \<open>
  \<^verbatim>\<open>strings.ToUpper\<close>: on a string of ASCII bytes it maps a..z to A..Z; any other
  string goes through Unicode case mapping, which is left to the parameter.
\<close>

definition upperASCII :: "char \<Rightarrow> char" where
  "upperASCII c =
     (case map_of (zip ''abcdefghijklmnopqrstuvwxyz'' ''ABCDEFGHIJKLMNOPQRSTUVWXYZ'') c of
        Some u \<Rightarrow> u | None \<Rightarrow> c)"

definition ToUpper :: "lib \<Rightarrow> string \<Rightarrow> string" where
  "ToUpper L s = (if list_ex digit7 s then ToUpperUnicode L s else map upperASCII s)"

text \<open>\<^verbatim>\<open>strings.Split(s, sep)\<close> for a separator of one byte (the code passes ",").\<close>

fun Split :: "string \<Rightarrow> char \<Rightarrow> string list" where
  "Split [] sep = [[]]"
| "Split (c # cs) sep =
     (if c = sep then [] # Split cs sep
      else (case Split cs sep of p # ps \<Rightarrow> (c # p) # ps | [] \<Rightarrow> [[c]]))"

subsection \<open>The string coercion engine\<close>

text \<open>
  \<^verbatim>\<open>interfaceFrom\<close> tries the type assertion on the field's value and, if that fails
  and the field is addressable, on the field's address. The two arguments \<open>onValue\<close> and
  \<open>onAddr\<close> are the outcomes of the assertion \<^verbatim>\<open>v.(I)\<close> in the two cases.
\<close>

definition interfaceFrom ::
  "bool \<Rightarrow> bool \<Rightarrow> conversion option \<Rightarrow> conversion option \<Rightarrow> conversion option" where
  "interfaceFrom canInterface canAddr onValue onAddr =
     (if \<not> canInterface then None
      else (case onValue of
              Some m \<Rightarrow> Some m
            | None \<Rightarrow> (if canAddr then onAddr else None)))"

text \<open>
  Every handle these three are called on is a settable field, the pointee of one, or an
  element of a fresh slice: for all of them \<^verbatim>\<open>CanInterface\<close> and \<^verbatim>\<open>CanAddr\<close>
  hold.
\<close>

definition decoderFrom :: "gtype \<Rightarrow> conversion option" where
  "decoderFrom typ =
     interfaceFrom True True (mDecode (methods (info typ))) (mDecode (ptr_methods (info typ)))"

definition setterFrom :: "gtype \<Rightarrow> conversion option" where
  "setterFrom typ =
     interfaceFrom True True (mSet (methods (info typ))) (mSet (ptr_methods (info typ)))"

definition textUnmarshaler :: "gtype \<Rightarrow> conversion option" where
  "textUnmarshaler typ =
     interfaceFrom True True (mUnmarshalText (methods (info typ)))
       (mUnmarshalText (ptr_methods (info typ)))"

text \<open>
  \<^verbatim>\<open>processField\<close> first looks for the three capabilities; then comes the pointer
  step (a nil pointer is given a fresh zero pointee, which stays even if the conversion
  fails afterwards) and then \<open>kindSwitch\<close>, the \<^verbatim>\<open>switch typ.Kind()\<close> on the type and
  handle the pointer step left. \<open>sliceElems\<close> is the loop of the slice case over the
  pieces, each element starting from the zero value \<^verbatim>\<open>MakeSlice\<close> gave it. When the
  loop fails the slice is dropped and the field keeps its value.
\<close>

fun processField :: "lib \<Rightarrow> string \<Rightarrow> gtype \<Rightarrow> gval \<Rightarrow> error option \<times> gval"
  and kindSwitch :: "lib \<Rightarrow> string \<Rightarrow> gtype \<Rightarrow> gval \<Rightarrow> error option \<times> gval"
  and sliceElems :: "lib \<Rightarrow> string list \<Rightarrow> gtype \<Rightarrow> error + gval list"
where
  "processField L value typ field =
     (case decoderFrom typ of
        Some decoder \<Rightarrow> decoder value field
      | None \<Rightarrow>
     (case setterFrom typ of
        Some setter \<Rightarrow> setter value field
      | None \<Rightarrow>
     (case textUnmarshaler typ of
        Some t \<Rightarrow> t value field
      | None \<Rightarrow>
     (case typ of
        TPtr i et \<Rightarrow>
          (case kindSwitch L value et (if IsNil field then zero et else Elem field) of
             (err, p) \<Rightarrow> (err, VPtr (Some p)))
      | _ \<Rightarrow> kindSwitch L value typ field))))"
| "kindSwitch L value (TString i) field = (None, VString value)"
| "kindSwitch L value (TInt i w) field =
     (case (if w = W64 \<and> PkgPath i = ''time'' \<and> tName i = ''Duration''
            then ParseDuration L value
            else ParseInt L value 0 (Bits L w)) of
        Inl err \<Rightarrow> (Some err, field)
      | Inr val \<Rightarrow> (None, SetInt (Bits L w) val))"
| "kindSwitch L value (TUint i w) field =
     (case ParseUint L value 0 (Bits L w) of
        Inl err \<Rightarrow> (Some err, field)
      | Inr val \<Rightarrow> (None, SetUint (Bits L w) val))"
| "kindSwitch L value (TBool i) field =
     (case ParseBool L value of
        Inl err \<Rightarrow> (Some err, field)
      | Inr val \<Rightarrow> (None, VBool val))"
| "kindSwitch L value (TFloat i w) field =
     (case ParseFloat L value (FBits w) of
        Inl err \<Rightarrow> (Some err, field)
      | Inr val \<Rightarrow> (None, VFloat val))"
| "kindSwitch L value (TSlice i et) field =
     (case sliceElems L (Split value CHR '','') et of
        Inl err \<Rightarrow> (Some err, field)
      | Inr sl \<Rightarrow> (None, VSlice sl))"
| "kindSwitch L value (TPtr i et) field = (None, field)"
| "kindSwitch L value (TStruct i fs) field = (None, field)"
| "kindSwitch L value (TOther i) field = (None, field)"
| "sliceElems L [] et = Inr []"
| "sliceElems L (val # vals) et =
     (case processField L val et (zero et) of
        (Some err, x) \<Rightarrow> Inl err
      | (None, x) \<Rightarrow>
          (case sliceElems L vals et of
             Inl err \<Rightarrow> Inl err
           | Inr xs \<Rightarrow> Inr (x # xs)))"

text \<open>
  The part of \<^verbatim>\<open>processField\<close> after the three capability checks, by itself: the
  pointer step and the kind switch.
\<close>

definition builtinConversion :: "lib \<Rightarrow> string \<Rightarrow> gtype \<Rightarrow> gval \<Rightarrow> error option \<times> gval" where
  "builtinConversion L value typ field =
     (case typ of
        TPtr i et \<Rightarrow>
          (case kindSwitch L value et (if IsNil field then zero et else Elem field) of
             (err, p) \<Rightarrow> (err, VPtr (Some p)))
      | _ \<Rightarrow> kindSwitch L value typ field)"

subsection \<open>The default-value pass\<close>

text \<open>
  The end of the loop body of \<^verbatim>\<open>processDefaultValues\<close>, for a handle that is not a
  struct: the default tag, if there is one, goes through \<^verbatim>\<open>processField\<close>, and a
  failure is wrapped into a \<open>ParseError\<close> (whose KeyName stays empty).
\<close>

definition defaultLeaf ::
  "lib \<Rightarrow> string \<Rightarrow> (string \<times> string) list \<Rightarrow> gtype \<Rightarrow> gval \<Rightarrow> error option \<times> gval" where
  "defaultLeaf L name tag typ f =
     (case Lookup tag ''default'' of
        Some value \<Rightarrow>
          (case processField L value typ f of
             (Some err, f') \<Rightarrow> (Some (ParseError [] name (tString (info typ)) value err), f')
           | (None, f') \<Rightarrow> (None, f'))
      | None \<Rightarrow> (None, f))"

text \<open>
  \<^verbatim>\<open>processDefaultValues\<close> receives a pointer to a struct; the model passes the
  struct's field descriptors and field values and returns the values updated. The loop
  over the field index is the recursion over the two lists (a value list shorter than the
  field list does not arise: the struct has the fields of its type).

  \<open>defaultField\<close> is the loop body after the \<^verbatim>\<open>CanSet\<close>/ignored test, as a function
  of the handle \<^verbatim>\<open>f\<close>: while \<^verbatim>\<open>f\<close> is a pointer the body follows it (leaving the
  loop at a nil pointer to a non-struct, allocating a zero struct for a nil pointer to a
  struct); a struct is walked recursively; anything else is a leaf. What is written
  through the pointee's handle is stored back under the pointer.
\<close>

fun processDefaultValues :: "lib \<Rightarrow> sfield list \<Rightarrow> gval list \<Rightarrow> error option \<times> gval list"
  and defaultField ::
    "lib \<Rightarrow> string \<Rightarrow> (string \<times> string) list \<Rightarrow> gtype \<Rightarrow> gval \<Rightarrow> error option \<times> gval"
where
  "processDefaultValues L [] s = (None, s)"
| "processDefaultValues L (ftype # fts) [] = (None, [])"
| "processDefaultValues L (SField name tag anon exported typ # fts) (f # s) =
     (if \<not> exported \<or> Get tag ''ignored'' = ''true''
      then (case processDefaultValues L fts s of (err, s') \<Rightarrow> (err, f # s'))
      else (case defaultField L name tag typ f of
              (Some err, f') \<Rightarrow> (Some err, f' # s)
            | (None, f') \<Rightarrow>
                (case processDefaultValues L fts s of (err, s') \<Rightarrow> (err, f' # s'))))"
| "defaultField L name tag (TPtr i et) f =
     (if IsNil f
      then (if Kind et \<noteq> KStruct
            then defaultLeaf L name tag (TPtr i et) f
            else (case defaultField L name tag et (zero et) of
                    (err, p) \<Rightarrow> (err, VPtr (Some p))))
      else (case defaultField L name tag et (Elem f) of
              (err, p) \<Rightarrow> (err, VPtr (Some p))))"
| "defaultField L name tag (TStruct i fts) f =
     (case processDefaultValues L fts (fieldsOf f) of
        (err, s') \<Rightarrow> (err, VStruct s'))"
| "defaultField L name tag typ f = defaultLeaf L name tag typ f"

subsection \<open>The file-merge pass\<close>

text \<open>
  \<^verbatim>\<open>processJson\<close>: a path that cannot be read is passed over; a file that was read is
  handed to \<^verbatim>\<open>json.Unmarshal\<close>, whose error is dropped. The result is always nil.
  A nil \<^verbatim>\<open>configPaths\<close> is the empty list.
\<close>

fun processJson :: "lib \<Rightarrow> string list \<Rightarrow> gtype \<Rightarrow> gval \<Rightarrow> error option \<times> gval" where
  "processJson L [] typ spec = (None, spec)"
| "processJson L (path # configPaths) typ spec =
     (case ReadFile L path of
        Inr jsonBytes \<Rightarrow> processJson L configPaths typ (snd (Unmarshal L jsonBytes typ spec))
      | Inl err \<Rightarrow> processJson L configPaths typ spec)"

subsection \<open>The environment pass\<close>

text \<open>The field name (the \<^verbatim>\<open>envconfig\<close> tag replaces it) and the key made of it.\<close>

definition envFieldName :: "string \<Rightarrow> (string \<times> string) list \<Rightarrow> string" where
  "envFieldName name tag = (if Get tag ''envconfig'' \<noteq> [] then Get tag ''envconfig'' else name)"

definition envKey :: "lib \<Rightarrow> string \<Rightarrow> string \<Rightarrow> string" where
  "envKey L prefix fieldName =
     ToUpper L (if prefix \<noteq> [] then prefix @ ''_'' @ fieldName else fieldName)"

text \<open>The end of the loop body: the lookup of the key and the conversion of what was found.\<close>

definition envLeaf ::
  "lib \<Rightarrow> string \<Rightarrow> string \<Rightarrow> gtype \<Rightarrow> gval \<Rightarrow> error option \<times> gval" where
  "envLeaf L key fieldName typ f =
     (case lookupEnv L key of
        Some value \<Rightarrow>
          (case processField L value typ f of
             (Some err, f') \<Rightarrow>
               (Some (ParseError key fieldName (tString (info typ)) value err), f')
           | (None, f') \<Rightarrow> (None, f'))
      | None \<Rightarrow> (None, f))"

text \<open>
  \<^verbatim>\<open>processEnvironmentValues\<close>, in the same shape as the default pass. \<open>envField\<close> is
  the loop body after the \<^verbatim>\<open>CanSet\<close>/ignored test; the name, tag and
  \<^verbatim>\<open>Anonymous\<close> flag are those of the struct field the body started from.
\<close>

fun processEnvironmentValues ::
    "lib \<Rightarrow> string \<Rightarrow> sfield list \<Rightarrow> gval list \<Rightarrow> error option \<times> gval list"
  and envField ::
    "lib \<Rightarrow> string \<Rightarrow> string \<Rightarrow> (string \<times> string) list \<Rightarrow> bool \<Rightarrow> gtype \<Rightarrow> gval
       \<Rightarrow> error option \<times> gval"
where
  "processEnvironmentValues L prefix [] s = (None, s)"
| "processEnvironmentValues L prefix (ftype # fts) [] = (None, [])"
| "processEnvironmentValues L prefix (SField name tag anon exported typ # fts) (f # s) =
     (if \<not> exported \<or> Get tag ''ignored'' = ''true''
      then (case processEnvironmentValues L prefix fts s of (err, s') \<Rightarrow> (err, f # s'))
      else (case envField L prefix name tag anon typ f of
              (Some err, f') \<Rightarrow> (Some err, f' # s)
            | (None, f') \<Rightarrow>
                (case processEnvironmentValues L prefix fts s of
                   (err, s') \<Rightarrow> (err, f' # s'))))"
| "envField L prefix name tag anon (TPtr i et) f =
     (if IsNil f
      then (if Kind et \<noteq> KStruct
            then envLeaf L (envKey L prefix (envFieldName name tag)) (envFieldName name tag)
                   (TPtr i et) f
            else (case envField L prefix name tag anon et (zero et) of
                    (err, p) \<Rightarrow> (err, VPtr (Some p))))
      else (case envField L prefix name tag anon et (Elem f) of
              (err, p) \<Rightarrow> (err, VPtr (Some p))))"
| "envField L prefix name tag anon (TStruct i fts) f =
     (if decoderFrom (TStruct i fts) = None \<and> setterFrom (TStruct i fts) = None
         \<and> textUnmarshaler (TStruct i fts) = None
      then (case processEnvironmentValues L
                   (if \<not> anon then envKey L prefix (envFieldName name tag) else prefix)
                   fts (fieldsOf f) of
              (err, s') \<Rightarrow> (err, VStruct s'))
      else envLeaf L (envKey L prefix (envFieldName name tag)) (envFieldName name tag)
             (TStruct i fts) f)"
| "envField L prefix name tag anon typ f =
     envLeaf L (envKey L prefix (envFieldName name tag)) (envFieldName name tag) typ f"

subsection \<open>Process\<close>

text \<open>
  The argument \<^verbatim>\<open>spec interface{}\<close> is a dynamic type with its value, or nil
  (\<open>None\<close>); \<^verbatim>\<open>reflect.ValueOf\<close> of nil is the zero Value, whose kind is Invalid, and
  so is \<^verbatim>\<open>Elem\<close> of a nil pointer.
\<close>

type_synonym rvalue = "(gtype \<times> gval) option"

fun rKind :: "rvalue \<Rightarrow> kind" where
  "rKind None = KInvalid"
| "rKind (Some (typ, v)) = Kind typ"

fun rElem :: "rvalue \<Rightarrow> rvalue" where
  "rElem (Some (TPtr i et, VPtr (Some v))) = Some (et, v)"
| "rElem s = None"

text \<open>Storing a struct back under the pointer \<^verbatim>\<open>spec\<close> is.\<close>

fun rSetElem :: "rvalue \<Rightarrow> gval \<Rightarrow> rvalue" where
  "rSetElem (Some (typ, p)) v = Some (typ, VPtr (Some v))"
| "rSetElem None v = None"

text \<open>
  \<^verbatim>\<open>Process\<close> returns its error together with the argument as it is afterwards.
\<close>

definition Process ::
  "lib \<Rightarrow> string \<Rightarrow> string list \<Rightarrow> rvalue \<Rightarrow> error option \<times> rvalue" where
  "Process L prefix configPaths spec =
     (if rKind spec \<noteq> KPtr then (Some ErrInvalidSpecification, spec)
      else if rKind (rElem spec) \<noteq> KStruct then (Some ErrInvalidSpecification, spec)
      else (case rElem spec of
              Some (TStruct i fts, s) \<Rightarrow>
                (case processDefaultValues L fts (fieldsOf s) of
                   (Some err, s1) \<Rightarrow> (Some err, rSetElem spec (VStruct s1))
                 | (None, s1) \<Rightarrow>
                (case processJson L configPaths (TStruct i fts) (VStruct s1) of
                   (Some err, s2) \<Rightarrow> (Some err, rSetElem spec s2)
                 | (None, s2) \<Rightarrow>
                (case processEnvironmentValues L prefix fts (fieldsOf s2) of
                   (err, s3) \<Rightarrow> (err, rSetElem spec (VStruct s3)))))
            | _ \<Rightarrow> (Some ErrInvalidSpecification, spec)))"

text \<open>The struct a specification points to, and one of its fields.\<close>

definition specFields :: "rvalue \<Rightarrow> gval list" where
  "specFields spec = (case rElem spec of Some (typ, s) \<Rightarrow> fieldsOf s | None \<Rightarrow> [])"

subsection \<open>Notions used in the statements\<close>

text \<open>A type none of the three capabilities is found on.\<close>

definition noCaps :: "gtype \<Rightarrow> bool" where
  "noCaps typ \<longleftrightarrow>
     decoderFrom typ = None \<and> setterFrom typ = None \<and> textUnmarshaler typ = None"

text \<open>A specification that is a non-nil pointer to a struct.\<close>

fun isStructPointer :: "rvalue \<Rightarrow> bool" where
  "isStructPointer (Some (TPtr i (TStruct j fts), VPtr (Some s))) = True"
| "isStructPointer spec = False"

text \<open>
  Go's typing makes the file-merge pass return the struct it was given with the same
  fields (\<open>jsonKeepsStruct\<close>); \<open>jsonKeepsField\<close> says in addition that none of the files
  sets field \<open>i\<close>.
\<close>

definition jsonKeepsStruct :: "lib \<Rightarrow> string list \<Rightarrow> gtype \<Rightarrow> bool" where
  "jsonKeepsStruct L configPaths typ \<longleftrightarrow>
     (\<forall>s1. \<exists>s2. snd (processJson L configPaths typ (VStruct s1)) = VStruct s2
                \<and> length s2 = length s1)"

definition jsonKeepsField :: "lib \<Rightarrow> string list \<Rightarrow> gtype \<Rightarrow> nat \<Rightarrow> bool" where
  "jsonKeepsField L configPaths typ i \<longleftrightarrow>
     (\<forall>s1. \<exists>s2. snd (processJson L configPaths typ (VStruct s1)) = VStruct s2
                \<and> length s2 = length s1 \<and> s2 ! i = s1 ! i)"

subsection \<open>The handle the pointer loop ends at\<close>

text \<open>
  The loop \<^verbatim>\<open>for f.Kind() == reflect.Ptr\<close> of the two walks, by itself: \<open>resolve\<close> gives
  the type and value of the handle the loop ends at (a nil pointer to a non-struct where
  the loop breaks, a struct, freshly allocated if the pointer to it was nil, or anything
  that is not a pointer), and \<open>store typ f v\<close> is the field \<open>f\<close> after \<open>v\<close> has been
  written through that handle.
\<close>

fun resolve :: "gtype \<Rightarrow> gval \<Rightarrow> gtype \<times> gval" where
  "resolve (TPtr i et) f =
     (if IsNil f
      then (if Kind et \<noteq> KStruct then (TPtr i et, f) else resolve et (zero et))
      else resolve et (Elem f))"
| "resolve typ f = (typ, f)"

fun store :: "gtype \<Rightarrow> gval \<Rightarrow> gval \<Rightarrow> gval" where
  "store (TPtr i et) f v =
     (if IsNil f
      then (if Kind et \<noteq> KStruct then v else VPtr (Some (store et (zero et) v)))
      else VPtr (Some (store et (Elem f) v)))"
| "store typ f v = v"

subsection \<open>The value a string stands for\<close>

text \<open>
  The conversions as the specification lists them, kind by kind and without reference to
  \<open>kindSwitch\<close>: a string is taken verbatim; signed and unsigned integers, booleans and
  floats go through the parser for the field's size (durations through the duration
  parser); a slice is the list of its converted pieces. \<open>switched\<close> is \<open>None\<close> where the
  string does not parse and for the kinds without a conversion. \<open>converted\<close> adds the
  pointer step: for a pointer type the string stands for a pointer to the converted
  pointee. \<open>hasConversion\<close> tells the types \<open>converted\<close> is about.
\<close>

fun switchable :: "gtype \<Rightarrow> bool" where
  "switchable (TString i) = True"
| "switchable (TInt i w) = True"
| "switchable (TUint i w) = True"
| "switchable (TBool i) = True"
| "switchable (TFloat i w) = True"
| "switchable (TSlice i et) = True"
| "switchable typ = False"

fun switched :: "lib \<Rightarrow> string \<Rightarrow> gtype \<Rightarrow> gval option" where
  "switched L value (TString i) = Some (VString value)"
| "switched L value (TInt i w) =
     (case (if w = W64 \<and> PkgPath i = ''time'' \<and> tName i = ''Duration''
            then ParseDuration L value else ParseInt L value 0 (Bits L w)) of
        Inr n \<Rightarrow> Some (SetInt (Bits L w) n) | Inl err \<Rightarrow> None)"
| "switched L value (TUint i w) =
     (case ParseUint L value 0 (Bits L w) of
        Inr n \<Rightarrow> Some (SetUint (Bits L w) n) | Inl err \<Rightarrow> None)"
| "switched L value (TBool i) =
     (case ParseBool L value of Inr b \<Rightarrow> Some (VBool b) | Inl err \<Rightarrow> None)"
| "switched L value (TFloat i w) =
     (case ParseFloat L value (FBits w) of Inr x \<Rightarrow> Some (VFloat x) | Inl err \<Rightarrow> None)"
| "switched L value (TSlice i et) =
     map_option VSlice
       (those (map (\<lambda>piece. case processField L piece et (zero et) of
                               (None, x) \<Rightarrow> Some x | (Some err, x) \<Rightarrow> None)
                   (Split value CHR '','')))"
| "switched L value typ = None"

definition hasConversion :: "gtype \<Rightarrow> bool" where
  "hasConversion typ = (case typ of TPtr i et \<Rightarrow> switchable et | _ \<Rightarrow> switchable typ)"

definition converted :: "lib \<Rightarrow> string \<Rightarrow> gtype \<Rightarrow> gval option" where
  "converted L value typ =
     (case typ of
        TPtr i et \<Rightarrow> map_option (\<lambda>y. VPtr (Some y)) (switched L value et)
      | _ \<Rightarrow> switched L value typ)"

subsection \<open>Paths into nested structs\<close>

text \<open>
  \<open>joinUnderscore\<close> joins strings with underscores.

  A path is the list of field indices from a struct down to one of its (nested) fields.
  \<open>envPath fts s p\<close> follows the path \<open>p\<close> the way the environment pass walks: through
  settable fields that are not ignored and whose handle is a struct without capabilities,
  down to a field whose handle is not such a struct. It gives the names met on the way
  that count for the key (the \<^verbatim>\<open>envconfig\<close> tag in place of the field name, nothing for an
  anonymous struct field), the last one being the name of the field itself, together with
  the field's type and its handle. \<open>fieldAt\<close> is the field at the end of the path.
\<close>

fun joinUnderscore :: "string list \<Rightarrow> string" where
  "joinUnderscore [] = []"
| "joinUnderscore [x] = x"
| "joinUnderscore (x # y # ys) = x @ ''_'' @ joinUnderscore (y # ys)"

fun envPath ::
  "sfield list \<Rightarrow> gval list \<Rightarrow> nat list \<Rightarrow> (string list \<times> gtype \<times> gtype \<times> gval) option" where
  "envPath fts s [] = None"
| "envPath fts s (i # p) =
     (if i < length fts \<and> i < length s
      then (case fts ! i of
              SField name tag anon exported typ \<Rightarrow>
                if \<not> exported \<or> Get tag ''ignored'' = ''true'' then None
                else (case resolve typ (s ! i) of
                        (rt, rf) \<Rightarrow>
                          if Kind rt = KStruct \<and> noCaps rt
                          then (case (rt, rf) of
                                  (TStruct ti fts', VStruct s0) \<Rightarrow>
                                    (case envPath fts' s0 p of
                                       Some (segs, x) \<Rightarrow>
                                         Some (if anon then segs
                                               else (if Get tag ''envconfig'' = [] then name
                                                     else Get tag ''envconfig'') # segs, x)
                                     | None \<Rightarrow> None)
                                | _ \<Rightarrow> None)
                          else if p = []
                          then Some ([if Get tag ''envconfig'' = [] then name
                                      else Get tag ''envconfig''], typ, rt, rf)
                          else None))
      else None)"

fun fieldAt :: "sfield list \<Rightarrow> gval list \<Rightarrow> nat list \<Rightarrow> gval" where
  "fieldAt fts s [] = VStruct s"
| "fieldAt fts s [i] = s ! i"
| "fieldAt fts s (i # p) =
     (case resolve (fType (fts ! i)) (s ! i) of
        (TStruct ti fts', VStruct s0) \<Rightarrow> fieldAt fts' s0 p
      | _ \<Rightarrow> VOther [])"

subsection \<open>Concrete types and collaborators for the examples\<close>

definition noMethods :: methodset where
  "noMethods = \<lparr>mDecode = None, mSet = None, mUnmarshalText = None\<rparr>"

text \<open>A type without methods, named and rendered \<open>n\<close>.\<close>

definition plain :: "string \<Rightarrow> tinfo" where
  "plain n =
     \<lparr>tName = n, PkgPath = [], tString = n, methods = noMethods, ptr_methods = noMethods\<rparr>"

text \<open>
  A small world for the examples: an environment \<open>env\<close>, files \<open>files\<close>, a JSON decoder
  \<open>unm\<close>; \<^verbatim>\<open>ParseInt\<close> knows the decimal digits and fails on anything else, the other
  parsers always fail.
\<close>

definition digitVal :: "string \<Rightarrow> int option" where
  "digitVal s =
     map_of [(''0'', 0), (''1'', 1), (''2'', 2), (''3'', 3), (''4'', 4), (''5'', 5),
             (''6'', 6), (''7'', 7), (''8'', 8), (''9'', 9)] s"

definition exampleLib ::
  "(string \<Rightarrow> string option) \<Rightarrow> (string \<Rightarrow> error + string)
     \<Rightarrow> (string \<Rightarrow> gtype \<Rightarrow> gval \<Rightarrow> error option \<times> gval) \<Rightarrow> lib" where
  "exampleLib env files unm =
     \<lparr>lookupEnv = env, ReadFile = files, Unmarshal = unm,
      ParseInt = (\<lambda>s base bits.
         case digitVal s of Some n \<Rightarrow> Inr n | None \<Rightarrow> Inl (ExternalError (''invalid syntax: '' @ s))),
      ParseUint = (\<lambda>s base bits. Inl (ExternalError (''invalid syntax: '' @ s))),
      ParseBool = (\<lambda>s. Inl (ExternalError (''invalid syntax: '' @ s))),
      ParseFloat = (\<lambda>s bits. Inl (ExternalError (''invalid syntax: '' @ s))),
      ParseDuration = (\<lambda>s. Inl (ExternalError (''invalid duration: '' @ s))),
      IntSize = 64, ToUpperUnicode = (\<lambda>s. s)\<rparr>"

text \<open>Methods for the examples: each stores the string it was given behind a mark.\<close>

definition stamp :: "string \<Rightarrow> conversion" where
  "stamp mark = (\<lambda>value field. (None, VString (mark @ value)))"

definition stampStruct :: "string \<Rightarrow> conversion" where
  "stampStruct mark = (\<lambda>value field. (None, VStruct [VString (mark @ value)]))"

definition noFiles :: "string \<Rightarrow> error + string" where
  "noFiles path = Inl (ExternalError (''no such file: '' @ path))"

definition noJson :: "string \<Rightarrow> gtype \<Rightarrow> gval \<Rightarrow> error option \<times> gval" where
  "noJson bytes typ spec = (Some (ExternalError ''unexpected end of JSON input''), spec)"

text \<open>A file system holding one file, and a JSON decoder that sets field \<open>k\<close> to \<open>v\<close>.\<close>

definition oneFile :: "string \<Rightarrow> string \<Rightarrow> string \<Rightarrow> error + string" where
  "oneFile name bytes path =
     (if path = name then Inr bytes else Inl (ExternalError (''no such file: '' @ path)))"

definition jsonSetsField :: "nat \<Rightarrow> gval \<Rightarrow> string \<Rightarrow> gtype \<Rightarrow> gval \<Rightarrow> error option \<times> gval" where
  "jsonSetsField k v bytes typ spec = (None, VStruct ((fieldsOf spec)[k := v]))"

text \<open>Types and a specification for the examples.\<close>

definition stringT :: gtype where
  "stringT = TString (plain ''string'')"

definition intT :: gtype where
  "intT = TInt (plain ''int'') W"

definition mapT :: gtype where
  "mapT = TOther (plain ''map[string]string'')"

definition intPtrT :: gtype where
  "intPtrT = TPtr (plain ''*int'') intT"

definition specPtr :: "sfield list \<Rightarrow> gval list \<Rightarrow> rvalue" where
  "specPtr fts s =
     Some (TPtr (plain ''*main.Spec'') (TStruct (plain ''main.Spec'') fts),
           VPtr (Some (VStruct s)))"

section \<open>Properties\<close>

subsection \<open>The two walks, field by field\<close>

lemma processDefaultValues_length:
  "length (snd (processDefaultValues L fts s)) = length s"
proof (induction fts arbitrary: s)
  case Nil
  show ?case by simp
next
  case (Cons ft fts)
  show ?case
  proof (cases s)
    case Nil
    then show ?thesis by simp
  next
    case (Cons f s0)
    obtain nm tg an ex ty where ft: "ft = SField nm tg an ex ty"
      by (cases ft)
    show ?thesis
      using Cons.IH [of s0]
      by (auto simp: Cons ft split: prod.splits option.splits)
  qed
qed

lemma processEnvironmentValues_length:
  "length (snd (processEnvironmentValues L prefix fts s)) = length s"
proof (induction fts arbitrary: s)
  case Nil
  show ?case by simp
next
  case (Cons ft fts)
  show ?case
  proof (cases s)
    case Nil
    then show ?thesis by simp
  next
    case (Cons f s0)
    obtain nm tg an ex ty where ft: "ft = SField nm tg an ex ty"
      by (cases ft)
    show ?thesis
      using Cons.IH [of s0]
      by (auto simp: Cons ft split: prod.splits option.splits)
  qed
qed

lemma processDefaultValues_skipped:
  "i < length s \<Longrightarrow> i < length fts \<Longrightarrow> fts ! i = SField name tag anon exported typ \<Longrightarrow>
   \<not> exported \<or> Get tag ''ignored'' = ''true'' \<Longrightarrow>
   snd (processDefaultValues L fts s) ! i = s ! i"
proof (induction fts arbitrary: s i)
  case Nil
  then show ?case by simp
next
  case (Cons ft fts)
  obtain f s0 where s: "s = f # s0"
    using Cons.prems(1) by (cases s) auto
  obtain name' tag' anon' exported' typ' where ft: "ft = SField name' tag' anon' exported' typ'"
    by (cases ft)
  show ?case
  proof (cases i)
    case 0
    with Cons.prems show ?thesis
      by (auto simp: s ft split: prod.splits option.splits)
  next
    case (Suc k)
    with Cons.prems have "snd (processDefaultValues L fts s0) ! k = s0 ! k"
      by (intro Cons.IH) (auto simp: s)
    then show ?thesis
      by (auto simp: s ft Suc split: prod.splits option.splits)
  qed
qed

lemma processDefaultValues_visited:
  "processDefaultValues L fts s = (None, s') \<Longrightarrow> i < length s \<Longrightarrow> i < length fts \<Longrightarrow>
   fts ! i = SField name tag anon True typ \<Longrightarrow> Get tag ''ignored'' \<noteq> ''true'' \<Longrightarrow>
   defaultField L name tag typ (s ! i) = (None, s' ! i)"
proof (induction fts arbitrary: s s' i)
  case Nil
  then show ?case by simp
next
  case (Cons ft fts)
  obtain f s0 where s: "s = f # s0"
    using Cons.prems(2) by (cases s) auto
  obtain name' tag' anon' exported' typ' where ft: "ft = SField name' tag' anon' exported' typ'"
    by (cases ft)
  show ?case
  proof (cases i)
    case 0
    with Cons.prems show ?thesis
      by (auto simp: s ft split: prod.splits option.splits if_splits)
  next
    case (Suc k)
    from Cons.prems(1) obtain f' s0' where s': "s' = f' # s0'"
      and rest: "processDefaultValues L fts s0 = (None, s0')"
      by (auto simp: s ft split: prod.splits option.splits if_splits)
    from Cons.prems Suc have "defaultField L name tag typ (s0 ! k) = (None, s0' ! k)"
      by (intro Cons.IH [OF rest]) (auto simp: s)
    then show ?thesis
      by (simp add: s s' Suc)
  qed
qed

lemma processEnvironmentValues_skipped:
  "i < length s \<Longrightarrow> i < length fts \<Longrightarrow> fts ! i = SField name tag anon exported typ \<Longrightarrow>
   \<not> exported \<or> Get tag ''ignored'' = ''true'' \<Longrightarrow>
   snd (processEnvironmentValues L prefix fts s) ! i = s ! i"
proof (induction fts arbitrary: s i)
  case Nil
  then show ?case by simp
next
  case (Cons ft fts)
  obtain f s0 where s: "s = f # s0"
    using Cons.prems(1) by (cases s) auto
  obtain name' tag' anon' exported' typ' where ft: "ft = SField name' tag' anon' exported' typ'"
    by (cases ft)
  show ?case
  proof (cases i)
    case 0
    with Cons.prems show ?thesis
      by (auto simp: s ft split: prod.splits option.splits)
  next
    case (Suc k)
    with Cons.prems have "snd (processEnvironmentValues L prefix fts s0) ! k = s0 ! k"
      by (intro Cons.IH) (auto simp: s)
    then show ?thesis
      by (auto simp: s ft Suc split: prod.splits option.splits)
  qed
qed

lemma processEnvironmentValues_visited:
  "processEnvironmentValues L prefix fts s = (None, s') \<Longrightarrow> i < length s \<Longrightarrow> i < length fts \<Longrightarrow>
   fts ! i = SField name tag anon True typ \<Longrightarrow> Get tag ''ignored'' \<noteq> ''true'' \<Longrightarrow>
   envField L prefix name tag anon typ (s ! i) = (None, s' ! i)"
proof (induction fts arbitrary: s s' i)
  case Nil
  then show ?case by simp
next
  case (Cons ft fts)
  obtain f s0 where s: "s = f # s0"
    using Cons.prems(2) by (cases s) auto
  obtain name' tag' anon' exported' typ' where ft: "ft = SField name' tag' anon' exported' typ'"
    by (cases ft)
  show ?case
  proof (cases i)
    case 0
    with Cons.prems show ?thesis
      by (auto simp: s ft split: prod.splits option.splits if_splits)
  next
    case (Suc k)
    from Cons.prems(1) obtain f' s0' where s': "s' = f' # s0'"
      and rest: "processEnvironmentValues L prefix fts s0 = (None, s0')"
      by (auto simp: s ft split: prod.splits option.splits if_splits)
    from Cons.prems Suc have "envField L prefix name tag anon typ (s0 ! k) = (None, s0' ! k)"
      by (intro Cons.IH [OF rest]) (auto simp: s)
    then show ?thesis
      by (simp add: s s' Suc)
  qed
qed

text \<open>A field that is neither a pointer nor a struct goes straight to the leaf action.\<close>

lemma leaf_defaultField:
  "Kind typ \<noteq> KPtr \<Longrightarrow> Kind typ \<noteq> KStruct \<Longrightarrow>
   defaultField L name tag typ f = defaultLeaf L name tag typ f"
  by (cases "typ") simp_all

lemma leaf_envField:
  "Kind typ \<noteq> KPtr \<Longrightarrow> Kind typ \<noteq> KStruct \<Longrightarrow>
   envField L prefix name tag anon typ f =
     envLeaf L (envKey L prefix (envFieldName name tag)) (envFieldName name tag) typ f"
  by (cases "typ") simp_all

lemma string_processField:
  "noCaps typ \<Longrightarrow> Kind typ = KString \<Longrightarrow> processField L value typ f = (None, VString value)"
  by (cases "typ") (simp_all add: noCaps_def)

subsection \<open>The passes in sequence\<close>

lemma processJson_nil: "fst (processJson L configPaths typ spec) = None"
  by (induction configPaths arbitrary: spec) (auto split: sum.splits)

lemma specFields_struct:
  "specFields (Some (TPtr pi et, VPtr (Some (VStruct s)))) = s"
  by (simp add: specFields_def)

text \<open>The three intermediate states of a call of \<open>Process\<close> that returns nil.\<close>

lemma Process_nil:
  assumes "Process L prefix configPaths (Some (TPtr pi (TStruct j fts), VPtr (Some (VStruct s))))
             = (None, spec')"
  shows "\<exists>s1 s2 s3. processDefaultValues L fts s = (None, s1)
           \<and> processJson L configPaths (TStruct j fts) (VStruct s1) = (None, s2)
           \<and> processEnvironmentValues L prefix fts (fieldsOf s2) = (None, s3)
           \<and> spec' = Some (TPtr pi (TStruct j fts), VPtr (Some (VStruct s3)))"
  using assms
  by (auto simp: Process_def split: prod.splits option.splits)

lemma single_envField:
  "Get tag ''ignored'' \<noteq> ''true'' \<Longrightarrow>
   processEnvironmentValues L prefix [SField name tag anon True typ] [f] =
     (case envField L prefix name tag anon typ f of (err, f') \<Rightarrow> (err, [f']))"
  by (auto simp del: envField.simps split: prod.splits option.splits)

subsection \<open>The slice case of the coercion engine\<close>

lemma sliceElems_Inr:
  "sliceElems L vals et = Inr xs \<Longrightarrow>
   length xs = length vals
   \<and> (\<forall>k<length vals. processField L (vals ! k) et (zero et) = (None, xs ! k))"
proof (induction vals arbitrary: xs)
  case Nil
  then show ?case by simp
next
  case (Cons val vals)
  from Cons.prems obtain x xs' where
    hd: "processField L val et (zero et) = (None, x)"
    and tl: "sliceElems L vals et = Inr xs'" and xs: "xs = x # xs'"
    by (auto simp del: processField.simps split: prod.splits option.splits sum.splits)
  from Cons.IH [OF tl] have len: "length xs' = length vals"
    and el: "\<forall>k<length vals. processField L (vals ! k) et (zero et) = (None, xs' ! k)"
    by blast+
  show ?case
  proof (intro conjI allI impI)
    show "length xs = length (val # vals)" using len xs by simp
  next
    fix k assume "k < length (val # vals)"
    then show "processField L ((val # vals) ! k) et (zero et) = (None, xs ! k)"
      using hd el xs by (cases k) (simp_all del: processField.simps)
  qed
qed

lemma sliceElems_Inl:
  "sliceElems L vals et = Inl err \<Longrightarrow>
   \<exists>k<length vals. fst (processField L (vals ! k) et (zero et)) = Some err"
proof (induction vals)
  case Nil
  then show ?case by simp
next
  case (Cons val vals)
  show ?case
  proof (cases "fst (processField L val et (zero et))")
    case (Some e)
    with Cons.prems have "e = err"
      by (auto simp del: processField.simps split: prod.splits option.splits sum.splits)
    with Some have "fst (processField L ((val # vals) ! 0) et (zero et)) = Some err"
      by (simp del: processField.simps)
    then show ?thesis by blast
  next
    case None
    with Cons.prems have "sliceElems L vals et = Inl err"
      by (auto simp del: processField.simps split: prod.splits option.splits sum.splits)
    from Cons.IH [OF this] obtain k where "k < length vals"
      and "fst (processField L (vals ! k) et (zero et)) = Some err" by blast
    then have "Suc k < length (val # vals)
        \<and> fst (processField L ((val # vals) ! Suc k) et (zero et)) = Some err"
      by (simp del: processField.simps)
    then show ?thesis by blast
  qed
qed

lemma slice_processField:
  "noCaps (TSlice si et) \<Longrightarrow>
   processField L value (TSlice si et) f =
     (case sliceElems L (Split value CHR '','') et of
        Inl err \<Rightarrow> (Some err, f) | Inr sl \<Rightarrow> (None, VSlice sl))"
  by (simp add: noCaps_def)

lemma Split_abc: "Split ''a,b,c'' CHR '','' = [''a'', ''b'', ''c'']"
  by simp

lemma Split_12x: "Split ''1,2,x'' CHR '','' = [''1'', ''2'', ''x'']"
  by simp

lemma emptySlice_processField:
  "noCaps (TSlice si (TString ei)) \<Longrightarrow> noCaps (TString ei) \<Longrightarrow>
   processField L [] (TSlice si (TString ei)) f = (None, VSlice [VString []])"
  by (simp add: noCaps_def)

lemma int_processField:
  "noCaps (TInt ti w) \<Longrightarrow> \<not> (w = W64 \<and> PkgPath ti = ''time'' \<and> tName ti = ''Duration'') \<Longrightarrow>
   processField L value (TInt ti w) f =
     (case ParseInt L value 0 (Bits L w) of
        Inl err \<Rightarrow> (Some err, f) | Inr n \<Rightarrow> (None, SetInt (Bits L w) n))"
  by (auto simp: noCaps_def)

subsection \<open>The pointer loop\<close>

declare processField.simps [simp del]

lemma resolve_ptr:
  "resolve ty f = (rt, rf) \<Longrightarrow> Kind rt = KPtr \<Longrightarrow>
   IsNil rf \<and> (\<exists>qi et. rt = TPtr qi et \<and> Kind et \<noteq> KStruct)"
  by (induction ty f rule: resolve.induct) (auto split: if_splits)

lemma IsNil_Elem: "\<not> IsNil f \<Longrightarrow> VPtr (Some (Elem f)) = f"
  by (cases f rule: IsNil.cases) auto

lemma resolve_struct: "Kind ty = KStruct \<Longrightarrow> resolve ty f = (ty, f)"
  by (cases ty) auto

lemma store_resolve:
  "resolve ty f = (rt, rf) \<Longrightarrow> Kind rt \<noteq> KStruct \<Longrightarrow> store ty f rf = f"
  by (induction ty f rule: resolve.induct) (auto split: if_splits simp: IsNil_Elem resolve_struct)

lemma resolve_store:
  "resolve ty f = (rt, rf) \<Longrightarrow> resolve ty (store ty f v) = resolve rt v"
  by (induction ty f rule: resolve.induct) (auto split: if_splits)

lemma resolve_idem:
  "resolve ty f = (rt, rf) \<Longrightarrow> resolve rt rf = (rt, rf)"
  by (induction ty f rule: resolve.induct) (auto split: if_splits)

lemma defaultField_resolve:
  "resolve ty f = (rt, rf) \<Longrightarrow>
   defaultField L name tag ty f =
     (case defaultField L name tag rt rf of (err, v) \<Rightarrow> (err, store ty f v))"
  by (induction ty f rule: resolve.induct) (auto split: if_splits prod.splits)

lemma envField_resolve:
  "resolve ty f = (rt, rf) \<Longrightarrow>
   envField L prefix name tag anon ty f =
     (case envField L prefix name tag anon rt rf of (err, v) \<Rightarrow> (err, store ty f v))"
  by (induction ty f rule: resolve.induct) (auto split: if_splits prod.splits)

lemma resolved_defaultField:
  assumes "resolve ty f = (rt, rf)" and "Kind rt \<noteq> KStruct"
  shows "defaultField L name tag ty f =
     (case defaultLeaf L name tag rt rf of (err, v) \<Rightarrow> (err, store ty f v))"
proof -
  have "defaultField L name tag rt rf = defaultLeaf L name tag rt rf"
  proof (cases "Kind rt = KPtr")
    case True
    from resolve_ptr [OF assms(1) True] show ?thesis by auto
  next
    case False
    with assms(2) show ?thesis by (simp add: leaf_defaultField)
  qed
  with defaultField_resolve [OF assms(1)] show ?thesis by simp
qed

lemma resolved_envField:
  assumes "resolve ty f = (rt, rf)" and "Kind rt \<noteq> KStruct \<or> \<not> noCaps rt"
  shows "envField L prefix name tag anon ty f =
     (case envLeaf L (envKey L prefix (envFieldName name tag)) (envFieldName name tag) rt rf of
        (err, v) \<Rightarrow> (err, store ty f v))"
proof -
  have "envField L prefix name tag anon rt rf =
      envLeaf L (envKey L prefix (envFieldName name tag)) (envFieldName name tag) rt rf"
  proof (cases "Kind rt = KPtr")
    case True
    from resolve_ptr [OF assms(1) True] show ?thesis by auto
  next
    case False
    show ?thesis
    proof (cases "Kind rt = KStruct")
      case True
      with assms(2) show ?thesis by (cases rt) (auto simp: noCaps_def)
    next
      case False
      with \<open>Kind rt \<noteq> KPtr\<close> show ?thesis by (simp add: leaf_envField)
    qed
  qed
  with envField_resolve [OF assms(1)] show ?thesis by simp
qed

lemma resolved_struct_defaultField:
  assumes "resolve ty f = (TStruct ti fts', rf)"
  shows "defaultField L name tag ty f =
     (case processDefaultValues L fts' (fieldsOf rf) of
        (err, s') \<Rightarrow> (err, store ty f (VStruct s')))"
  using defaultField_resolve [OF assms, of L name tag]
  by (simp split: prod.splits)

lemma resolved_struct_envField:
  assumes "resolve ty f = (TStruct ti fts', rf)" and "noCaps (TStruct ti fts')"
  shows "envField L prefix name tag anon ty f =
     (case processEnvironmentValues L
             (if anon then prefix else envKey L prefix (envFieldName name tag))
             fts' (fieldsOf rf) of
        (err, s') \<Rightarrow> (err, store ty f (VStruct s')))"
  using envField_resolve [OF assms(1), of L prefix name tag anon] assms(2)
  by (auto simp: noCaps_def split: prod.splits)

lemma envField_absent:
  assumes "resolve ty f = (rt, rf)" and "Kind rt \<noteq> KStruct"
    and "lookupEnv L (envKey L prefix (envFieldName name tag)) = None"
  shows "envField L prefix name tag anon ty f = (None, f)"
  using resolved_envField [of ty f rt rf L prefix name tag anon] assms
  by (simp add: envLeaf_def store_resolve)

subsection \<open>The conversions, kind by kind\<close>

lemma those_sliceElems:
  "those (map (\<lambda>piece. case processField L piece et (zero et) of
                          (None, x) \<Rightarrow> Some x | (Some err, x) \<Rightarrow> None) vals) =
   (case sliceElems L vals et of Inr xs \<Rightarrow> Some xs | Inl err \<Rightarrow> None)"
  by (induction vals) (auto split: prod.splits option.splits sum.splits)

lemma sliceElems_those:
  "sliceElems L vals et = Inr xs \<longleftrightarrow>
   those (map (\<lambda>piece. case processField L piece et (zero et) of
                          (None, x) \<Rightarrow> Some x | (Some err, x) \<Rightarrow> None) vals) = Some xs"
  by (simp add: those_sliceElems split: sum.splits)

lemma kindSwitch_switched:
  assumes "switchable ty" and "kindSwitch L value ty f = (None, x)"
  shows "switched L value ty = Some x"
proof (cases ty)
  case (TSlice i et)
  with assms(2) have "sliceElems L (Split value CHR '','') et = Inr (case x of VSlice xs \<Rightarrow> xs)
      \<and> x = VSlice (case x of VSlice xs \<Rightarrow> xs)"
    by (auto split: sum.splits)
  then show ?thesis
    using TSlice by (auto simp: sliceElems_those)
qed (use assms in \<open>auto split: sum.splits if_splits\<close>)

lemma processField_converted:
  assumes "noCaps ty" and "hasConversion ty" and "processField L value ty f = (None, x)"
  shows "converted L value ty = Some x"
proof (cases "\<exists>i et. ty = TPtr i et")
  case True
  then obtain i et where ty: "ty = TPtr i et" by auto
  from assms(2) have sw: "switchable et" by (simp add: ty hasConversion_def)
  from assms(1,3) obtain y where
    k: "kindSwitch L value et (if IsNil f then zero et else Elem f) = (None, y)"
    and x: "x = VPtr (Some y)"
    by (auto simp: ty noCaps_def processField.simps split: prod.splits)
  from kindSwitch_switched [OF sw k] show ?thesis
    by (simp add: converted_def ty x)
next
  case False
  with assms(2) have sw: "switchable ty" by (cases ty) (auto simp: hasConversion_def)
  from False assms(1,3) have "kindSwitch L value ty f = (None, x)"
    by (cases ty) (auto simp: noCaps_def processField.simps)
  from kindSwitch_switched [OF sw this] False show ?thesis
    by (cases ty) (auto simp: converted_def)
qed

lemma processField_other:
  "noCaps ty \<Longrightarrow> Kind ty = KOther \<Longrightarrow> processField L value ty f = (None, f)"
  by (cases ty) (auto simp: noCaps_def processField.simps)

declare processField.simps [simp]

lemma resolve_leaf: "Kind ty \<noteq> KPtr \<Longrightarrow> resolve ty f = (ty, f)"
  by (cases ty) auto

lemma switchable_Kind: "switchable ty \<Longrightarrow> Kind ty \<noteq> KPtr \<and> Kind ty \<noteq> KStruct \<and> Kind ty \<noteq> KOther"
  by (cases ty) auto

lemma hasConversion_Kind: "hasConversion ty \<Longrightarrow> Kind ty \<noteq> KStruct \<and> Kind ty \<noteq> KOther"
  by (cases ty) (auto simp: hasConversion_def)

lemma converted_resolve:
  assumes "hasConversion rt" and "converted L d rt = Some x"
  shows "\<exists>rt' rf'. resolve rt x = (rt', rf') \<and> Kind rt' \<noteq> KStruct"
proof (cases "Kind rt = KPtr")
  case True
  then obtain qi et where rt: "rt = TPtr qi et" by (cases rt) auto
  from assms(1) have sw: "switchable et" by (simp add: rt hasConversion_def)
  from assms(2) obtain y where x: "x = VPtr (Some y)"
    by (auto simp: rt converted_def)
  have "resolve rt x = (et, y)"
    using switchable_Kind [OF sw] by (simp add: rt x resolve_leaf)
  with switchable_Kind [OF sw] show ?thesis by simp
next
  case False
  with hasConversion_Kind [OF assms(1)] show ?thesis by (simp add: resolve_leaf)
qed

subsection \<open>Keys\<close>

lemma upperASCII_idem: "upperASCII (upperASCII c) = upperASCII c"
  by (auto simp: upperASCII_def)

lemma upperASCII_digit7: "digit7 (upperASCII c) = digit7 c"
  by (auto simp: upperASCII_def)


lemma ToUpper_ascii: "\<not> list_ex digit7 s \<Longrightarrow> ToUpper L s = map upperASCII s"
  by (simp add: ToUpper_def)

lemma ascii_upper: "\<not> list_ex digit7 s \<Longrightarrow> \<not> list_ex digit7 (map upperASCII s)"
  by (simp add: list_ex_iff upperASCII_digit7)

lemma upper_upper: "map upperASCII (map upperASCII s) = map upperASCII s"
  by (simp add: upperASCII_idem)

lemma upper_underscore: "map upperASCII ''_'' = ''_''"
  by (simp add: upperASCII_def)

lemma envKey_ascii:
  assumes "\<not> list_ex digit7 prefix" and "\<not> list_ex digit7 n"
  shows "envKey L prefix n = map upperASCII (if prefix \<noteq> [] then prefix @ ''_'' @ n else n)"
  using assms by (simp add: envKey_def ToUpper_def)

lemma key_join:
  assumes "\<not> list_ex digit7 prefix"
    and "list_all (\<lambda>n. n \<noteq> [] \<and> \<not> list_ex digit7 n) segs" and "segs \<noteq> []"
  shows "foldl (envKey L) prefix segs =
     map upperASCII (joinUnderscore (if prefix = [] then segs else prefix # segs))"
  using assms
proof (induction segs arbitrary: prefix)
  case Nil
  then show ?case by simp
next
  case (Cons n ns)
  from Cons.prems have n: "n \<noteq> []" "\<not> list_ex digit7 n" by simp_all
  let ?k = "envKey L prefix n"
  have k: "?k = map upperASCII (if prefix \<noteq> [] then prefix @ ''_'' @ n else n)"
    by (rule envKey_ascii [OF Cons.prems(1) n(2)])
  show ?case
  proof (cases ns)
    case Nil
    then show ?thesis by (simp add: k)
  next
    case (Cons m ms)
    have kne: "?k \<noteq> []" using n(1) by (simp add: k)
    have kascii: "\<not> list_ex digit7 ?k"
      using Cons.prems(1) n(2) by (auto simp: k list_ex_iff upperASCII_digit7)
    have rest: "list_all (\<lambda>n. n \<noteq> [] \<and> \<not> list_ex digit7 n) ns" "ns \<noteq> []"
      using Cons.prems(2) Cons by simp_all
    have "foldl (envKey L) ?k ns =
        map upperASCII (joinUnderscore (if ?k = [] then ns else ?k # ns))"
      by (rule Cons.IH [OF kascii rest])
    then have "foldl (envKey L) prefix (n # ns) = map upperASCII (?k @ ''_'' @ joinUnderscore ns)"
      using kne Cons by simp
    also have "\<dots> = ?k @ ''_'' @ map upperASCII (joinUnderscore ns)"
      by (simp add: k upperASCII_idem upperASCII_def)
    also have "\<dots> = map upperASCII (joinUnderscore (if prefix = [] then n # ns else prefix # n # ns))"
      using Cons by (simp add: k upperASCII_def)
    finally show ?thesis .
  qed
qed

lemma envPath_nonempty: "envPath fts s p = Some (segs, x) \<Longrightarrow> segs \<noteq> [] \<and> p \<noteq> []"
proof (induction p arbitrary: fts s segs x)
  case Nil
  then show ?case by simp
next
  case (Cons i p)
  then show ?case
    by (auto split: if_splits sfield.splits prod.splits gtype.splits gval.splits option.splits)
qed

lemma envPath_walk:
  assumes "envPath fts s p = Some (segs, ty, rt, rf)"
    and "processEnvironmentValues L prefix fts s = (None, s')"
  shows "\<exists>x. envLeaf L (foldl (envKey L) prefix segs) (last segs) rt rf = (None, x)
           \<and> fieldAt fts s' p = store ty (fieldAt fts s p) x"
  using assms
proof (induction p arbitrary: fts s prefix s' segs)
  case Nil
  then show ?case by simp
next
  case (Cons i p)
  from Cons.prems(1) have ir: "i < length fts" "i < length s"
    by (auto split: if_splits)
  obtain name tag anon exported ty0 where ft: "fts ! i = SField name tag anon exported ty0"
    by (cases "fts ! i")
  from Cons.prems(1) ir ft have ex: "exported" and ign: "Get tag ''ignored'' \<noteq> ''true''"
    by (auto split: if_splits)
  obtain rt0 rf0 where res: "resolve ty0 (s ! i) = (rt0, rf0)"
    by (cases "resolve ty0 (s ! i)")
  let ?seg = "envFieldName name tag"
  have seg: "?seg = (if Get tag ''envconfig'' = [] then name else Get tag ''envconfig'')"
    by (simp add: envFieldName_def)
  have vis: "envField L prefix name tag anon ty0 (s ! i) = (None, s' ! i)"
    using processEnvironmentValues_visited [OF Cons.prems(2) ir(2) ir(1) _ ign] ft ex by simp
  show ?case
  proof (cases "Kind rt0 = KStruct \<and> noCaps rt0")
    case True
    with Cons.prems(1) ir ft ex ign res obtain ti fts' s0 segs' where
      rt0: "rt0 = TStruct ti fts'" and rf0: "rf0 = VStruct s0"
      and inner: "envPath fts' s0 p = Some (segs', ty, rt, rf)"
      and segs: "segs = (if anon then segs' else ?seg # segs')"
      by (auto simp: seg split: if_splits gtype.splits gval.splits option.splits)
    let ?inner = "if anon then prefix else envKey L prefix ?seg"
    from envPath_nonempty [OF inner] have ne: "segs' \<noteq> []" "p \<noteq> []" by simp_all
    from True rt0 have nc: "noCaps (TStruct ti fts')" by simp
    from resolved_struct_envField [OF res [unfolded rt0] nc, of L prefix name tag anon] vis
    obtain s0' where
      rec: "processEnvironmentValues L ?inner fts' s0 = (None, s0')"
      and si: "s' ! i = store ty0 (s ! i) (VStruct s0')"
      by (auto simp: rf0 split: prod.splits)
    from Cons.IH [OF inner rec] obtain x where
      leaf: "envLeaf L (foldl (envKey L) ?inner segs') (last segs') rt rf = (None, x)"
      and at: "fieldAt fts' s0' p = store ty (fieldAt fts' s0 p) x"
      by blast
    have key: "foldl (envKey L) prefix segs = foldl (envKey L) ?inner segs'"
      by (simp add: segs)
    have lst: "last segs = last segs'"
      using ne by (simp add: segs)
    obtain j p' where p: "p = j # p'" using ne(2) by (cases p) auto
    have before: "fieldAt fts s (i # p) = fieldAt fts' s0 p"
      by (simp add: p ft res rt0 rf0)
    have "resolve ty0 (s' ! i) = (TStruct ti fts', VStruct s0')"
      using resolve_store [OF res, of "VStruct s0'"] by (simp add: si rt0)
    then have after: "fieldAt fts s' (i # p) = fieldAt fts' s0' p"
      by (simp add: p ft)
    from leaf at show ?thesis
      by (simp only: key lst before after) blast
  next
    case False
    with Cons.prems(1) ir ft ex ign res have
      p: "p = []" and segs: "segs = [?seg]" and ty: "ty = ty0" and rt: "rt = rt0" and rf: "rf = rf0"
      by (auto simp: seg split: if_splits)
    from False have cond: "Kind rt0 \<noteq> KStruct \<or> \<not> noCaps rt0" by blast
    from resolved_envField [OF res cond, of L prefix name tag anon] vis
    obtain x where leaf: "envLeaf L (envKey L prefix ?seg) ?seg rt0 rf0 = (None, x)"
      and si: "s' ! i = store ty0 (s ! i) x"
      by (auto split: prod.splits)
    then show ?thesis
      by (simp add: p segs ty rt rf)
  qed
qed

text \<open>The key of a field, of a field in a named struct field and in an anonymous one.\<close>

lemma environment_key_examples:
  assumes "Get tag ''envconfig'' = []" and "Get tag ''ignored'' \<noteq> ''true''"
    and "Kind typ \<noteq> KPtr" and "Kind typ \<noteq> KStruct"
    and "Get stag ''envconfig'' = []" and "Get stag ''ignored'' \<noteq> ''true''"
    and "noCaps (TStruct si [SField ''Port'' tag anon True typ])"
  shows "processEnvironmentValues L ''app'' [SField ''Port'' tag anon True typ] [f] =
           (case envLeaf L ''APP_PORT'' ''Port'' typ f of (err, f') \<Rightarrow> (err, [f']))
     \<and> processEnvironmentValues L ''app''
           [SField ''Server'' stag False True (TStruct si [SField ''Port'' tag anon True typ])]
           [VStruct [f]] =
           (case envLeaf L ''APP_SERVER_PORT'' ''Port'' typ f of
              (err, f') \<Rightarrow> (err, [VStruct [f']]))
     \<and> processEnvironmentValues L ''app''
           [SField ''Server'' stag True True (TStruct si [SField ''Port'' tag anon True typ])]
           [VStruct [f]] =
           (case envLeaf L ''APP_PORT'' ''Port'' typ f of
              (err, f') \<Rightarrow> (err, [VStruct [f']]))"
proof -
  have k1: "envKey L ''app'' ''Port'' = ''APP_PORT''"
    by (simp add: envKey_def ToUpper_def upperASCII_def)
  have k2: "envKey L ''app'' ''Server'' = ''APP_SERVER''"
    by (simp add: envKey_def ToUpper_def upperASCII_def)
  have k3: "envKey L ''APP_SERVER'' ''Port'' = ''APP_SERVER_PORT''"
    by (simp add: envKey_def ToUpper_def upperASCII_def)
  have n1: "envFieldName ''Port'' tag = ''Port''"
    using assms(1) by (simp add: envFieldName_def)
  have n2: "envFieldName ''Server'' stag = ''Server''"
    using assms(5) by (simp add: envFieldName_def)
  have inner: "\<And>prefix. processEnvironmentValues L prefix [SField ''Port'' tag anon True typ] [f] =
      (case envLeaf L (envKey L prefix ''Port'') ''Port'' typ f of (err, f') \<Rightarrow> (err, [f']))"
    by (simp only: single_envField [OF assms(2)] leaf_envField [OF assms(3,4)] n1)
  have caps: "decoderFrom (TStruct si [SField ''Port'' tag anon True typ]) = None
      \<and> setterFrom (TStruct si [SField ''Port'' tag anon True typ]) = None
      \<and> textUnmarshaler (TStruct si [SField ''Port'' tag anon True typ]) = None"
    using assms(7) by (simp add: noCaps_def)
  have outer: "envField L ''app'' ''Server'' stag an
        (TStruct si [SField ''Port'' tag anon True typ]) (VStruct [f]) =
      (case envLeaf L (envKey L (if \<not> an then ''APP_SERVER'' else ''app'') ''Port'') ''Port'' typ f of
         (err, f') \<Rightarrow> (err, VStruct [f']))" for an
  proof -
    have "envField L ''app'' ''Server'' stag an
        (TStruct si [SField ''Port'' tag anon True typ]) (VStruct [f]) =
      (case processEnvironmentValues L (if \<not> an then ''APP_SERVER'' else ''app'')
              [SField ''Port'' tag anon True typ] [f] of
         (err, s') \<Rightarrow> (err, VStruct s'))"
      using caps by (simp add: n2 k2 del: processEnvironmentValues.simps)
    then show ?thesis
      by (simp add: inner del: processEnvironmentValues.simps split: prod.splits)
  qed
  have o1: "processEnvironmentValues L ''app''
           [SField ''Server'' stag False True (TStruct si [SField ''Port'' tag anon True typ])]
           [VStruct [f]] =
           (case envLeaf L ''APP_SERVER_PORT'' ''Port'' typ f of
              (err, f') \<Rightarrow> (err, [VStruct [f']]))"
    by (simp add: single_envField [OF assms(6)] outer k3
          del: processEnvironmentValues.simps envField.simps split: prod.splits)
  have o2: "processEnvironmentValues L ''app''
           [SField ''Server'' stag True True (TStruct si [SField ''Port'' tag anon True typ])]
           [VStruct [f]] =
           (case envLeaf L ''APP_PORT'' ''Port'' typ f of
              (err, f') \<Rightarrow> (err, [VStruct [f']]))"
    by (simp add: single_envField [OF assms(6)] outer k1
          del: processEnvironmentValues.simps envField.simps split: prod.splits)
  from inner [of "''app''"] o1 o2 show ?thesis
    by (simp only: k1)
qed

text \<open>The definitions an example is evaluated with.\<close>

lemmas example_defs =
  Process_def specPtr_def stringT_def intT_def plain_def noMethods_def exampleLib_def
  Get_def Lookup_def defaultLeaf_def envLeaf_def envKey_def envFieldName_def
  ToUpper_def upperASCII_def decoderFrom_def setterFrom_def textUnmarshaler_def
  interfaceFrom_def noFiles_def noJson_def oneFile_def jsonSetsField_def digitVal_def
  SetInt_def noCaps_def specFields_def mapT_def intPtrT_def

section \<open>The claims\<close>

subsection \<open>C1: the default-value pass and values the caller has set\<close>

text \<open>
  Claim C1 says that the default-value pass assigns a default only to a field without a
  value of its own, so that a field the caller set before calling \<open>Process\<close> keeps the
  caller's value when no file and no environment variable provide one. The code has no
  such test: the default tag goes through \<open>processField\<close> whatever the field holds. A
  struct with the one field \<^verbatim>\<open>Name string `default:"x"`\<close>, set to "y" by the caller,
  holds "x" after \<open>Process\<close>.
\<close>

theorem C1_counterexample:
  "Process (exampleLib Map.empty noFiles noJson) [] []
     (specPtr [SField ''Name'' [(''default'', ''x'')] False True stringT] [VString ''y''])
   = (None, specPtr [SField ''Name'' [(''default'', ''x'')] False True stringT] [VString ''x''])"
  by (simp add: Process_def specPtr_def stringT_def plain_def noMethods_def exampleLib_def
        Get_def Lookup_def defaultLeaf_def envLeaf_def envKey_def envFieldName_def
        ToUpper_def upperASCII_def decoderFrom_def setterFrom_def textUnmarshaler_def
        interfaceFrom_def)

text \<open>
  Claim C1, amended: for a settable field that is not ignored and carries a default tag,
  the default-value pass hands the default string to \<open>processField\<close> on the handle its
  pointer loop ends at, unless that handle is a struct, whatever value the field already
  holds. So when no file sets the field and its environment key is absent, after a call of
  \<open>Process\<close> that returns nil:
  \<^item> if the handle's type has no capability and is a string, integer, unsigned integer,
    boolean, float or slice, or a nil pointer to one of these, the field holds (under its
    pointers) the converted default, not the caller's value;
  \<^item> if the handle is not a pointer, the field holds what \<open>processField\<close> left for the
    default (with a capability: what the capability's method left);
  \<^item> if the handle's type has no capability and no conversion (map, array, chan, func,
    interface, complex), the field keeps the caller's value.
\<close>

theorem C1_default_overwrites:
  assumes "i < length fts" and "length s = length fts"
    and "fts ! i = SField name tag anon True typ"
    and "Get tag ''ignored'' \<noteq> ''true''"
    and "Lookup tag ''default'' = Some d"
    and "resolve typ (s ! i) = (rt, rf)" and "Kind rt \<noteq> KStruct"
    and "jsonKeepsField L configPaths (TStruct j fts) i"
    and "lookupEnv L (envKey L prefix (envFieldName name tag)) = None"
    and "Process L prefix configPaths (Some (TPtr pi (TStruct j fts), VPtr (Some (VStruct s))))
           = (None, spec')"
  shows "(\<exists>s1 x. processDefaultValues L fts s = (None, s1)
            \<and> processField L d rt rf = (None, x) \<and> s1 ! i = store typ (s ! i) x
            \<and> (Kind rt \<noteq> KPtr \<longrightarrow> specFields spec' ! i = store typ (s ! i) x))
         \<and> (noCaps rt \<and> hasConversion rt \<longrightarrow>
              (\<exists>y. converted L d rt = Some y \<and> specFields spec' ! i = store typ (s ! i) y))
         \<and> (noCaps rt \<and> Kind rt = KOther \<longrightarrow> specFields spec' ! i = s ! i)"
proof -
  from Process_nil [OF assms(10)] obtain s1 s2 s3 where
    d: "processDefaultValues L fts s = (None, s1)"
    and js: "processJson L configPaths (TStruct j fts) (VStruct s1) = (None, s2)"
    and e: "processEnvironmentValues L prefix fts (fieldsOf s2) = (None, s3)"
    and sp: "spec' = Some (TPtr pi (TStruct j fts), VPtr (Some (VStruct s3)))"
    by blast
  have fin: "specFields spec' ! i = s3 ! i" by (simp add: sp specFields_struct)
  have l1: "length s1 = length s"
    using processDefaultValues_length [of L fts s] d by simp
  have ilen: "i < length s" using assms(1,2) by simp
  have "defaultField L name tag typ (s ! i) = (None, s1 ! i)"
    by (rule processDefaultValues_visited [OF d ilen assms(1) assms(3) assms(4)])
  with resolved_defaultField [OF assms(6,7), of L name tag] assms(5)
  obtain x where pf: "processField L d rt rf = (None, x)"
    and s1i: "s1 ! i = store typ (s ! i) x"
    by (auto simp: defaultLeaf_def simp del: processField.simps split: prod.splits option.splits)
  from assms(8) js obtain s2' where s2: "s2 = VStruct s2'" and l2: "length s2' = length s1"
    and k2: "s2' ! i = s1 ! i"
    unfolding jsonKeepsField_def by (metis snd_conv)
  have i2: "i < length s2'" using assms(1,2) l1 l2 by simp
  have ef: "envField L prefix name tag anon typ (s1 ! i) = (None, s3 ! i)"
    using processEnvironmentValues_visited [OF _ i2 assms(1) assms(3) assms(4)] e s2 k2 by simp
  have res1: "resolve typ (s1 ! i) = resolve rt x"
    using resolve_store [OF assms(6), of x] by (simp add: s1i)
  have keep: "s3 ! i = s1 ! i" if "resolve rt x = (rt', rf')" and "Kind rt' \<noteq> KStruct" for rt' rf'
    using envField_absent [OF _ that(2) assms(9), of "typ" "s1 ! i" rf' anon] res1 that(1) ef
    by simp
  have B: "specFields spec' ! i = store typ (s ! i) x" if "Kind rt \<noteq> KPtr"
    using keep [OF resolve_leaf [OF that] assms(7)] by (simp add: fin s1i)
  have C: "\<exists>y. converted L d rt = Some y \<and> specFields spec' ! i = store typ (s ! i) y"
    if "noCaps rt \<and> hasConversion rt"
  proof -
    from that pf have cv: "converted L d rt = Some x"
      by (intro processField_converted) auto
    from converted_resolve [OF _ cv] that obtain rt' rf' where
      "resolve rt x = (rt', rf')" and "Kind rt' \<noteq> KStruct" by blast
    from keep [OF this] cv show ?thesis by (simp add: fin s1i)
  qed
  have D: "specFields spec' ! i = s ! i" if "noCaps rt \<and> Kind rt = KOther"
  proof -
    from that have "processField L d rt rf = (None, rf)"
      by (intro processField_other) auto
    with pf have "x = rf" by simp
    moreover from that have "Kind rt \<noteq> KPtr" by simp
    ultimately show ?thesis
      using B store_resolve [OF assms(6,7)] by simp
  qed
  from d pf s1i B C D show ?thesis by blast
qed

text \<open>
  A field \<^verbatim>\<open>Port *int `default:"5"`\<close> pointing to 3, a path that cannot be read and an empty
  environment: the pointee ends as 5.
\<close>

theorem C1_witness:
  "Process (exampleLib Map.empty noFiles noJson) ''app'' [''missing.json'']
      (specPtr [SField ''Port'' [(''default'', ''5'')] False True intPtrT] [VPtr (Some (VInt 3))])
    = (None, specPtr [SField ''Port'' [(''default'', ''5'')] False True intPtrT]
               [VPtr (Some (VInt 5))])
   \<and> resolve intPtrT (VPtr (Some (VInt 3))) = (intT, VInt 3)
   \<and> converted (exampleLib Map.empty noFiles noJson) ''5'' intT = Some (VInt 5)
   \<and> specFields (specPtr [SField ''Port'' [(''default'', ''5'')] False True intPtrT]
         [VPtr (Some (VInt 5))]) ! 0
      = store intPtrT (VPtr (Some (VInt 3))) (VInt 5)"
proof -
  let ?L = "exampleLib Map.empty noFiles noJson"
  let ?tag = "[(''default'', ''5'')]"
  let ?fts = "[SField ''Port'' ?tag False True intPtrT]"
  let ?s = "[VPtr (Some (VInt 3))]"
  have p: "Process ?L ''app'' [''missing.json'']
      (Some (TPtr (plain ''*main.Spec'') (TStruct (plain ''main.Spec'') ?fts),
             VPtr (Some (VStruct ?s))))
    = (None, specPtr ?fts [VPtr (Some (VInt 5))])"
    by (simp add: example_defs)
  have h1: "0 < length ?fts" by simp
  have h2: "length ?s = length ?fts" by simp
  have h3: "?fts ! 0 = SField ''Port'' ?tag False True intPtrT" by simp
  have h4: "Get ?tag ''ignored'' \<noteq> ''true''" by (simp add: Get_def)
  have h5: "Lookup ?tag ''default'' = Some ''5''" by (simp add: Lookup_def)
  have h6: "resolve intPtrT (?s ! 0) = (intT, VInt 3)" by (simp add: intPtrT_def intT_def)
  have h7: "Kind intT \<noteq> KStruct" by (simp add: intT_def)
  have h8: "jsonKeepsField ?L [''missing.json''] (TStruct (plain ''main.Spec'') ?fts) 0"
    by (simp add: jsonKeepsField_def exampleLib_def noFiles_def)
  have h9: "lookupEnv ?L (envKey ?L ''app'' (envFieldName ''Port'' ?tag)) = None"
    by (simp add: exampleLib_def)
  have nc: "noCaps intT \<and> hasConversion intT"
    by (simp add: example_defs hasConversion_def)
  have cv: "converted ?L ''5'' intT = Some (VInt 5)"
    by (simp add: example_defs converted_def)
  from C1_default_overwrites [OF h1 h2 h3 h4 h5 h6 h7 h8 h9 p] nc
  obtain y where "converted ?L ''5'' intT = Some y"
    and "specFields (specPtr ?fts [VPtr (Some (VInt 5))]) ! 0 = store intPtrT (?s ! 0) y"
    by blast
  with cv have c: "specFields (specPtr ?fts [VPtr (Some (VInt 5))]) ! 0
      = store intPtrT (VPtr (Some (VInt 3))) (VInt 5)"
    by simp
  have r: "resolve intPtrT (VPtr (Some (VInt 3))) = (intT, VInt 3)"
    using h6 by simp
  from p r cv c show ?thesis by (simp only: specPtr_def)
qed

subsection \<open>C2: the environment wins over file and default\<close>

text \<open>
  Claim C2 says that a field with a default tag, a value in a file and a matching
  environment variable holds the converted environment value after \<open>Process\<close>. That is not
  so for a field of a kind the coercion engine has no conversion for: the kind switch has
  no case for it and reports no error. A field \<^verbatim>\<open>Labels map[string]string\<close> with a default
  tag, set by the file, and with \<open>APP_LABELS\<close> present holds the file's value after
  \<open>Process\<close> has returned nil, the same as without the variable.
\<close>

theorem C2_counterexample:
  "lookupEnv (exampleLib [''APP_LABELS'' \<mapsto> ''from-env''] (oneFile ''config.json'' ''{Labels: from-file}'')
       (jsonSetsField 0 (VOther ''from-file''))) ''APP_LABELS'' = Some ''from-env''
   \<and> Process
      (exampleLib [''APP_LABELS'' \<mapsto> ''from-env''] (oneFile ''config.json'' ''{Labels: from-file}'')
         (jsonSetsField 0 (VOther ''from-file'')))
      ''app'' [''config.json'']
      (specPtr [SField ''Labels'' [(''default'', ''from-default'')] False True mapT] [VOther []])
    = (None, specPtr [SField ''Labels'' [(''default'', ''from-default'')] False True mapT]
               [VOther ''from-file''])
   \<and> Process
      (exampleLib Map.empty (oneFile ''config.json'' ''{Labels: from-file}'')
         (jsonSetsField 0 (VOther ''from-file'')))
      ''app'' [''config.json'']
      (specPtr [SField ''Labels'' [(''default'', ''from-default'')] False True mapT] [VOther []])
    = (None, specPtr [SField ''Labels'' [(''default'', ''from-default'')] False True mapT]
               [VOther ''from-file''])"
  by (simp add: example_defs)

text \<open>
  Claim C2, amended: the three passes run in the order defaults, files, environment, and
  for a settable field that is not ignored and whose key is present the environment pass
  hands the value to \<open>processField\<close> on the handle its pointer loop ends at, unless that
  handle is a struct without capabilities. After a call of \<open>Process\<close> that returns nil (the
  default pass and the file-merge pass having left the states \<open>s1\<close> and \<open>s2\<close>):
  \<^item> if the handle's type has no capability and is a string, integer, unsigned integer,
    boolean, float or slice, or a nil pointer to one of these, the field holds (under its
    pointers) the converted environment value, whatever the default and the file gave;
  \<^item> if the handle is not a struct, or is a struct with a capability, the field holds what
    \<open>processField\<close> left for the environment value (with a capability: what the capability's
    method left);
  \<^item> if the handle's type has no capability and no conversion (map, array, chan, func,
    interface, complex), the field keeps the value the files left.
\<close>

theorem C2_environment_wins:
  assumes "i < length fts" and "length s = length fts"
    and "fts ! i = SField name tag anon True typ"
    and "Get tag ''ignored'' \<noteq> ''true''"
    and "jsonKeepsStruct L configPaths (TStruct j fts)"
    and "lookupEnv L (envKey L prefix (envFieldName name tag)) = Some value"
    and "Process L prefix configPaths (Some (TPtr pi (TStruct j fts), VPtr (Some (VStruct s))))
           = (None, spec')"
  shows "\<exists>s1 s2 rt rf. processDefaultValues L fts s = (None, s1)
           \<and> processJson L configPaths (TStruct j fts) (VStruct s1) = (None, VStruct s2)
           \<and> resolve typ (s2 ! i) = (rt, rf)
           \<and> (Kind rt \<noteq> KStruct \<or> \<not> noCaps rt \<longrightarrow>
                (\<exists>x. processField L value rt rf = (None, x)
                    \<and> specFields spec' ! i = store typ (s2 ! i) x))
           \<and> (noCaps rt \<and> hasConversion rt \<longrightarrow>
                (\<exists>y. converted L value rt = Some y
                    \<and> specFields spec' ! i = store typ (s2 ! i) y))
           \<and> (noCaps rt \<and> Kind rt = KOther \<longrightarrow> specFields spec' ! i = s2 ! i)"
proof -
  from Process_nil [OF assms(7)] obtain s1 s2 s3 where
    d: "processDefaultValues L fts s = (None, s1)"
    and js: "processJson L configPaths (TStruct j fts) (VStruct s1) = (None, s2)"
    and e: "processEnvironmentValues L prefix fts (fieldsOf s2) = (None, s3)"
    and sp: "spec' = Some (TPtr pi (TStruct j fts), VPtr (Some (VStruct s3)))"
    by blast
  have fin: "specFields spec' ! i = s3 ! i" by (simp add: sp specFields_struct)
  have l1: "length s1 = length s"
    using processDefaultValues_length [of L fts s] d by simp
  from assms(5) js obtain s2' where s2: "s2 = VStruct s2'" and l2: "length s2' = length s1"
    unfolding jsonKeepsStruct_def by (metis snd_conv)
  have i2: "i < length s2'" using assms(1,2) l1 l2 by simp
  have ef: "envField L prefix name tag anon typ (s2' ! i) = (None, s3 ! i)"
    using processEnvironmentValues_visited [OF _ i2 assms(1) assms(3) assms(4)] e s2 by simp
  obtain rt rf where res: "resolve typ (s2' ! i) = (rt, rf)"
    by (cases "resolve typ (s2' ! i)")
  have A: "\<exists>x. processField L value rt rf = (None, x) \<and> s3 ! i = store typ (s2' ! i) x"
    if "Kind rt \<noteq> KStruct \<or> \<not> noCaps rt"
    using resolved_envField [OF res that, of L prefix name tag anon] ef assms(6)
    by (auto simp: envLeaf_def simp del: processField.simps split: prod.splits option.splits)
  have C: "\<exists>y. converted L value rt = Some y \<and> s3 ! i = store typ (s2' ! i) y"
    if "noCaps rt \<and> hasConversion rt"
  proof -
    from that hasConversion_Kind [of rt] have "Kind rt \<noteq> KStruct \<or> \<not> noCaps rt" by blast
    from A [OF this] obtain x where pf: "processField L value rt rf = (None, x)"
      and si: "s3 ! i = store typ (s2' ! i) x" by blast
    from that pf have "converted L value rt = Some x"
      by (intro processField_converted) auto
    with si show ?thesis by simp
  qed
  have D: "s3 ! i = s2' ! i" if "noCaps rt \<and> Kind rt = KOther"
  proof -
    from that have k: "Kind rt \<noteq> KStruct" by simp
    then have "Kind rt \<noteq> KStruct \<or> \<not> noCaps rt" by blast
    from A [OF this] obtain x where pf: "processField L value rt rf = (None, x)"
      and si: "s3 ! i = store typ (s2' ! i) x" by blast
    from that have "processField L value rt rf = (None, rf)"
      by (intro processField_other) auto
    with pf have "x = rf" by simp
    with si store_resolve [OF res k] show ?thesis by simp
  qed
  from d js s2 res A C D show ?thesis
    unfolding fin by blast
qed

text \<open>
  The field \<open>Name\<close> with default "from-default", a file whose decoding sets it to
  "from-file" and the variable \<open>APP_NAME\<close> set to "from-env": the three passes leave
  "from-default", "from-file" and "from-env" in turn.
\<close>

theorem C2_witness:
  "processDefaultValues
      (exampleLib [''APP_NAME'' \<mapsto> ''from-env''] (oneFile ''config.json'' ''{Name: from-file}'')
         (jsonSetsField 0 (VString ''from-file'')))
      [SField ''Name'' [(''default'', ''from-default'')] False True stringT] [VString []]
    = (None, [VString ''from-default''])
   \<and> processJson
      (exampleLib [''APP_NAME'' \<mapsto> ''from-env''] (oneFile ''config.json'' ''{Name: from-file}'')
         (jsonSetsField 0 (VString ''from-file'')))
      [''config.json'']
      (TStruct (plain ''main.Spec'') [SField ''Name'' [(''default'', ''from-default'')] False True stringT])
      (VStruct [VString ''from-default''])
    = (None, VStruct [VString ''from-file''])
   \<and> Process
      (exampleLib [''APP_NAME'' \<mapsto> ''from-env''] (oneFile ''config.json'' ''{Name: from-file}'')
         (jsonSetsField 0 (VString ''from-file'')))
      ''app'' [''config.json'']
      (specPtr [SField ''Name'' [(''default'', ''from-default'')] False True stringT] [VString []])
    = (None, specPtr [SField ''Name'' [(''default'', ''from-default'')] False True stringT]
               [VString ''from-env''])
   \<and> specFields (specPtr [SField ''Name'' [(''default'', ''from-default'')] False True stringT]
               [VString ''from-env'']) ! 0 = VString ''from-env''"
proof -
  let ?L = "exampleLib [''APP_NAME'' \<mapsto> ''from-env'']
      (oneFile ''config.json'' ''{Name: from-file}'') (jsonSetsField 0 (VString ''from-file''))"
  let ?tag = "[(''default'', ''from-default'')]"
  let ?fts = "[SField ''Name'' ?tag False True stringT]"
  let ?X = "specPtr ?fts [VString ''from-env'']"
  have d: "processDefaultValues ?L ?fts [VString []] = (None, [VString ''from-default''])"
    by (simp add: example_defs)
  have js: "processJson ?L [''config.json''] (TStruct (plain ''main.Spec'') ?fts)
       (VStruct [VString ''from-default'']) = (None, VStruct [VString ''from-file''])"
    by (simp add: example_defs)
  have p: "Process ?L ''app'' [''config.json'']
      (Some (TPtr (plain ''*main.Spec'') (TStruct (plain ''main.Spec'') ?fts),
             VPtr (Some (VStruct [VString []]))))
    = (None, ?X)"
    by (simp add: example_defs)
  have h1: "0 < length ?fts" by simp
  have h2: "length [VString []] = length ?fts" by simp
  have h3: "?fts ! 0 = SField ''Name'' ?tag False True stringT" by simp
  have h4: "Get ?tag ''ignored'' \<noteq> ''true''" by (simp add: Get_def)
  have h5: "jsonKeepsStruct ?L [''config.json''] (TStruct (plain ''main.Spec'') ?fts)"
    by (simp add: jsonKeepsStruct_def exampleLib_def oneFile_def jsonSetsField_def)
  have h6: "lookupEnv ?L (envKey ?L ''app'' (envFieldName ''Name'' ?tag)) = Some ''from-env''"
    by (simp add: example_defs)
  have nc: "noCaps stringT \<and> hasConversion stringT"
    by (simp add: example_defs hasConversion_def)
  have cv: "converted ?L ''from-env'' stringT = Some (VString ''from-env'')"
    by (simp add: stringT_def converted_def)
  have rs: "\<And>f. resolve stringT f = (stringT, f)" by (simp add: stringT_def)
  have st: "\<And>f v. store stringT f v = v" by (simp add: stringT_def)
  from C2_environment_wins [OF h1 h2 h3 h4 h5 h6 p]
  obtain s1 s2 rt rf where "resolve stringT (s2 ! 0) = (rt, rf)"
    and imp: "noCaps rt \<and> hasConversion rt \<longrightarrow>
       (\<exists>y. converted ?L ''from-env'' rt = Some y \<and> specFields ?X ! 0 = store stringT (s2 ! 0) y)"
    by blast
  then have "rt = stringT" by (simp add: rs)
  with imp nc obtain y where "converted ?L ''from-env'' stringT = Some y"
    and "specFields ?X ! 0 = store stringT (s2 ! 0) y"
    by blast
  with cv have c: "specFields ?X ! 0 = VString ''from-env''"
    by (simp add: st)
  from d js p c show ?thesis by (simp only: specPtr_def)
qed

subsection \<open>C3: the environment key\<close>

text \<open>
  Claim C3: the key of a field is the upper-cased underscore-join of the prefix, the names
  of the enclosing struct fields that are not anonymous, and the field's name. For every
  prefix, struct and path the environment pass walks (\<open>envPath\<close>, with the names \<open>segs\<close>
  met on the way): when the pass returns nil, the field at the end of the path is what
  \<open>envLeaf\<close> leaves with the key obtained by going from the prefix through the names, each
  step joining with an underscore (unless the prefix so far is empty) and upper-casing;
  and for ASCII prefix and non-empty ASCII names that key is the upper-cased
  underscore-join of the prefix (if not empty) and the names. With prefix "app" this
  gives \<open>APP_PORT\<close> for \<open>Port\<close>, \<open>APP_SERVER_PORT\<close> for \<open>Port\<close> in a named field \<open>Server\<close> and
  \<open>APP_PORT\<close> for \<open>Port\<close> in an anonymous \<open>Server\<close>.
\<close>

theorem C3_environment_key:
  assumes "envPath fts s p = Some (segs, typ, rt, rf)"
    and "processEnvironmentValues L prefix fts s = (None, s')"
  shows "(\<exists>x. envLeaf L (foldl (envKey L) prefix segs) (last segs) rt rf = (None, x)
            \<and> fieldAt fts s' p = store typ (fieldAt fts s p) x)
     \<and> (\<not> list_ex digit7 prefix \<and> list_all (\<lambda>n. n \<noteq> [] \<and> \<not> list_ex digit7 n) segs \<longrightarrow>
          foldl (envKey L) prefix segs =
            map upperASCII (joinUnderscore (if prefix = [] then segs else prefix # segs)))"
proof -
  from envPath_nonempty [OF assms(1)] have ne: "segs \<noteq> []" by simp
  have "foldl (envKey L) prefix segs =
            map upperASCII (joinUnderscore (if prefix = [] then segs else prefix # segs))"
    if "\<not> list_ex digit7 prefix \<and> list_all (\<lambda>n. n \<noteq> [] \<and> \<not> list_ex digit7 n) segs"
    using that ne by (intro key_join) auto
  with envPath_walk [OF assms] show ?thesis by blast
qed

text \<open>
  The three keys of the claim, with prefix "app": \<open>Port\<close> by itself, \<open>Port\<close> in a named
  field \<open>Server\<close> (where \<open>APP_SERVER_PORT\<close> is set to "8" and the port becomes 8), and
  \<open>Port\<close> in an anonymous \<open>Server\<close>.
\<close>

theorem C3_witness:
  "(\<exists>x. envLeaf (exampleLib [''APP_SERVER_PORT'' \<mapsto> ''8''] noFiles noJson)
            ''APP_PORT'' ''Port'' intT (VInt 0) = (None, x)
       \<and> fieldAt [SField ''Port'' [] False True intT] [VInt 0] [0]
           = store intT (fieldAt [SField ''Port'' [] False True intT] [VInt 0] [0]) x)
   \<and> (\<exists>x. envLeaf (exampleLib [''APP_SERVER_PORT'' \<mapsto> ''8''] noFiles noJson)
            ''APP_SERVER_PORT'' ''Port'' intT (VInt 0) = (None, x)
       \<and> fieldAt [SField ''Server'' [] False True
                     (TStruct (plain ''main.Server'') [SField ''Port'' [] False True intT])]
            [VStruct [VInt 8]] [0, 0]
           = store intT
               (fieldAt [SField ''Server'' [] False True
                     (TStruct (plain ''main.Server'') [SField ''Port'' [] False True intT])]
                  [VStruct [VInt 0]] [0, 0]) x)
   \<and> (\<exists>x. envLeaf (exampleLib [''APP_SERVER_PORT'' \<mapsto> ''8''] noFiles noJson)
            ''APP_PORT'' ''Port'' intT (VInt 0) = (None, x)
       \<and> fieldAt [SField ''Server'' [] True True
                     (TStruct (plain ''main.Server'') [SField ''Port'' [] False True intT])]
            [VStruct [VInt 0]] [0, 0]
           = store intT
               (fieldAt [SField ''Server'' [] True True
                     (TStruct (plain ''main.Server'') [SField ''Port'' [] False True intT])]
                  [VStruct [VInt 0]] [0, 0]) x)"
proof -
  let ?L = "exampleLib [''APP_SERVER_PORT'' \<mapsto> ''8''] noFiles noJson"
  let ?port = "[SField ''Port'' [] False True intT]"
  let ?named = "[SField ''Server'' [] False True (TStruct (plain ''main.Server'') ?port)]"
  let ?anon = "[SField ''Server'' [] True True (TStruct (plain ''main.Server'') ?port)]"
  have ascii: "\<not> list_ex digit7 ''app''"
    "list_all (\<lambda>n. n \<noteq> [] \<and> \<not> list_ex digit7 n) [''Port'']"
    "list_all (\<lambda>n. n \<noteq> [] \<and> \<not> list_ex digit7 n) [''Server'', ''Port'']"
    by simp_all
  have j1: "map upperASCII (joinUnderscore (if ''app'' = [] then [''Port''] else ''app'' # [''Port'']))
      = ''APP_PORT''"
    by (simp add: upperASCII_def)
  have j2: "map upperASCII (joinUnderscore
      (if ''app'' = [] then [''Server'', ''Port''] else ''app'' # [''Server'', ''Port'']))
      = ''APP_SERVER_PORT''"
    by (simp add: upperASCII_def)
  have pa: "envPath ?port [VInt 0] [0] = Some ([''Port''], intT, intT, VInt 0)"
    by (simp add: example_defs)
  have ea: "processEnvironmentValues ?L ''app'' ?port [VInt 0] = (None, [VInt 0])"
    by (simp add: example_defs)
  have pb: "envPath ?named [VStruct [VInt 0]] [0, 0] = Some ([''Server'', ''Port''], intT, intT, VInt 0)"
    by (simp add: example_defs)
  have eb: "processEnvironmentValues ?L ''app'' ?named [VStruct [VInt 0]] = (None, [VStruct [VInt 8]])"
    by (simp add: example_defs)
  have pc: "envPath ?anon [VStruct [VInt 0]] [0, 0] = Some ([''Port''], intT, intT, VInt 0)"
    by (simp add: example_defs)
  have ec: "processEnvironmentValues ?L ''app'' ?anon [VStruct [VInt 0]] = (None, [VStruct [VInt 0]])"
    by (simp add: example_defs)
  have l1: "last [''Port''] = ''Port''" "last [''Server'', ''Port''] = ''Port''" by simp_all
  note a = C3_environment_key [OF pa ea]
  note b = C3_environment_key [OF pb eb]
  note c = C3_environment_key [OF pc ec]
  have ka: "foldl (envKey ?L) ''app'' [''Port''] = ''APP_PORT''"
    using a [THEN conjunct2, THEN mp, OF conjI [OF ascii(1) ascii(2)]] by (simp only: j1)
  have kb: "foldl (envKey ?L) ''app'' [''Server'', ''Port''] = ''APP_SERVER_PORT''"
    using b [THEN conjunct2, THEN mp, OF conjI [OF ascii(1) ascii(3)]] by (simp only: j2)
  from a [THEN conjunct1] b [THEN conjunct1] c [THEN conjunct1] show ?thesis
    by (simp only: ka kb l1) 
qed

subsection \<open>C4: files never make Process fail\<close>

text \<open>
  Claim C4: the file-merge pass returns nil for every list of paths. A path that cannot
  be read is passed over and the remaining paths are tried on the unchanged struct; a
  file that was read is handed to the decoder and, whether or not the decoder reports an
  error, the remaining paths are tried on what the decoder left. After a default pass
  that succeeded, \<open>Process\<close> is the environment pass run on the outcome of the file-merge
  pass: its error can only be the environment pass's.
\<close>

theorem C4_files_never_fail:
  "fst (processJson L configPaths typ s) = None
   \<and> (ReadFile L path = Inl e \<longrightarrow>
        processJson L (path # configPaths) typ s = processJson L configPaths typ s)
   \<and> (ReadFile L path = Inr jsonBytes \<longrightarrow>
        processJson L (path # configPaths) typ s =
          processJson L configPaths typ (snd (Unmarshal L jsonBytes typ s)))
   \<and> (processDefaultValues L fts s0 = (None, s1) \<longrightarrow>
        Process L prefix configPaths (Some (TPtr i (TStruct j fts), VPtr (Some (VStruct s0)))) =
          (case processEnvironmentValues L prefix fts
                  (fieldsOf (snd (processJson L configPaths (TStruct j fts) (VStruct s1)))) of
             (err, s3) \<Rightarrow> (err, Some (TPtr i (TStruct j fts), VPtr (Some (VStruct s3))))))"
proof -
  have nil: "\<And>sp. fst (processJson L configPaths (TStruct j fts) sp) = None"
    by (rule processJson_nil)
  have "processDefaultValues L fts s0 = (None, s1) \<Longrightarrow>
        Process L prefix configPaths (Some (TPtr i (TStruct j fts), VPtr (Some (VStruct s0)))) =
          (case processEnvironmentValues L prefix fts
                  (fieldsOf (snd (processJson L configPaths (TStruct j fts) (VStruct s1)))) of
             (err, s3) \<Rightarrow> (err, Some (TPtr i (TStruct j fts), VPtr (Some (VStruct s3)))))"
    using nil [of "VStruct s1"]
    by (cases "processJson L configPaths (TStruct j fts) (VStruct s1)")
       (auto simp: Process_def split: prod.splits option.splits)
  then show ?thesis
    by (simp add: processJson_nil)
qed

text \<open>
  A missing file followed by a file the decoder rejects.
\<close>

theorem C4_witness:
  "ReadFile (exampleLib Map.empty (oneFile ''bad.json'' ''{'') noJson) ''missing.json''
     = Inl (ExternalError ''no such file: missing.json'')
   \<and> processJson (exampleLib Map.empty (oneFile ''bad.json'' ''{'') noJson)
       (''missing.json'' # [''bad.json'']) (TStruct (plain ''main.Spec'') []) (VStruct [])
     = processJson (exampleLib Map.empty (oneFile ''bad.json'' ''{'') noJson)
       [''bad.json''] (TStruct (plain ''main.Spec'') []) (VStruct [])
   \<and> fst (processJson (exampleLib Map.empty (oneFile ''bad.json'' ''{'') noJson)
       [''bad.json''] (TStruct (plain ''main.Spec'') []) (VStruct [])) = None"
proof -
  let ?L = "exampleLib Map.empty (oneFile ''bad.json'' ''{'') noJson"
  have r: "ReadFile ?L ''missing.json'' = Inl (ExternalError ''no such file: missing.json'')"
    by (simp add: example_defs)
  from C4_files_never_fail [of ?L "[''bad.json'']" "TStruct (plain ''main.Spec'') []" "VStruct []"
      "''missing.json''" "ExternalError ''no such file: missing.json''"] r
  show ?thesis by blast
qed

subsection \<open>C5: the invalid specification\<close>

text \<open>
  Claim C5: when the argument is not a non-nil pointer to a struct, \<open>Process\<close> returns
  \<open>ErrInvalidSpecification\<close> and leaves the argument as it was, whatever the environment,
  the files and the paths are: none of the passes has run.
\<close>

theorem C5_invalid_specification:
  "\<not> isStructPointer spec \<Longrightarrow>
   Process L prefix configPaths spec = (Some ErrInvalidSpecification, spec)"
proof (cases spec)
  case None
  then show ?thesis by (simp add: Process_def)
next
  case (Some tv)
  obtain ty v where tv: "tv = (ty, v)" by (cases tv)
  assume n: "\<not> isStructPointer spec"
  show ?thesis
  proof (cases "\<exists>i et. ty = TPtr i et")
    case False
    then have "Kind ty \<noteq> KPtr" by (cases ty) auto
    then show ?thesis by (simp add: Process_def Some tv)
  next
    case True
    then obtain i et where ty: "ty = TPtr i et" by auto
    show ?thesis
    proof (cases "\<exists>p. v = VPtr (Some p)")
      case False
      then have "rElem spec = None"
        by (cases v) (auto simp: Some tv ty)
      then show ?thesis by (simp add: Process_def Some tv ty)
    next
      case True
      then obtain p where v: "v = VPtr (Some p)" by auto
      from n have "Kind et \<noteq> KStruct"
        by (cases et) (auto simp: Some tv ty v)
      then show ?thesis by (simp add: Process_def Some tv ty v)
    qed
  qed
qed

text \<open>
  A nil pointer to a struct.
\<close>

theorem C5_witness:
  "\<not> isStructPointer (Some (TPtr (plain ''*main.Spec'') (TStruct (plain ''main.Spec'') []), VPtr None))
   \<and> Process (exampleLib Map.empty noFiles noJson) ''app'' [''config.json'']
        (Some (TPtr (plain ''*main.Spec'') (TStruct (plain ''main.Spec'') []), VPtr None))
      = (Some ErrInvalidSpecification,
         Some (TPtr (plain ''*main.Spec'') (TStruct (plain ''main.Spec'') []), VPtr None))"
proof -
  have h: "\<not> isStructPointer
      (Some (TPtr (plain ''*main.Spec'') (TStruct (plain ''main.Spec'') []), VPtr None))"
    by simp
  from h C5_invalid_specification [OF h] show ?thesis by blast
qed

subsection \<open>C6: slices\<close>

text \<open>
  Claim C6: for a slice type without capabilities the conversion splits the string on
  commas and converts each piece with \<open>processField\<close> into an element: when all pieces
  convert, the slice has one element per piece, each the conversion of its piece; when the
  conversion fails, its error is the error of one of the pieces, and the field is left as
  it was. So "a,b,c" on a slice of strings gives the three strings, and "1,2,x" on a
  slice of integers, where \<^verbatim>\<open>ParseInt\<close> accepts "1" and "2" and rejects "x" with
  error \<open>e\<close>, fails with \<open>e\<close>.
\<close>

theorem C6_slice_conversion:
  assumes "noCaps (TSlice si et)"
  shows "processField L value (TSlice si et) f =
           (case sliceElems L (Split value CHR '','') et of
              Inl err \<Rightarrow> (Some err, f) | Inr sl \<Rightarrow> (None, VSlice sl))
     \<and> (\<forall>xs. sliceElems L vals et = Inr xs \<longrightarrow>
           length xs = length vals
           \<and> (\<forall>k<length vals. processField L (vals ! k) et (zero et) = (None, xs ! k)))
     \<and> (\<forall>err. sliceElems L vals et = Inl err \<longrightarrow>
           (\<exists>k<length vals. fst (processField L (vals ! k) et (zero et)) = Some err))
     \<and> (et = TString ei \<and> noCaps et \<longrightarrow>
           processField L ''a,b,c'' (TSlice si et) f =
             (None, VSlice [VString ''a'', VString ''b'', VString ''c'']))
     \<and> (et = TInt ei w \<and> noCaps et
          \<and> \<not> (w = W64 \<and> PkgPath ei = ''time'' \<and> tName ei = ''Duration'')
          \<and> ParseInt L ''1'' 0 (Bits L w) = Inr a \<and> ParseInt L ''2'' 0 (Bits L w) = Inr b
          \<and> ParseInt L ''x'' 0 (Bits L w) = Inl e \<longrightarrow>
           processField L ''1,2,x'' (TSlice si et) f = (Some e, f))"
proof -
  have strs: "et = TString ei \<and> noCaps et \<longrightarrow>
           processField L ''a,b,c'' (TSlice si et) f =
             (None, VSlice [VString ''a'', VString ''b'', VString ''c''])"
    using assms by (auto simp: noCaps_def)
  have ints: "et = TInt ei w \<and> noCaps et
          \<and> \<not> (w = W64 \<and> PkgPath ei = ''time'' \<and> tName ei = ''Duration'')
          \<and> ParseInt L ''1'' 0 (Bits L w) = Inr a \<and> ParseInt L ''2'' 0 (Bits L w) = Inr b
          \<and> ParseInt L ''x'' 0 (Bits L w) = Inl e \<longrightarrow>
           processField L ''1,2,x'' (TSlice si et) f = (Some e, f)"
    using assms by (auto simp: noCaps_def)
  show ?thesis
    using slice_processField [OF assms, of L "value" f] sliceElems_Inr [of L vals et]
      sliceElems_Inl [of L vals et] strs ints
    by (simp del: processField.simps)
qed

text \<open>
  With a \<^verbatim>\<open>ParseInt\<close> that knows the decimal digits.
\<close>

theorem C6_witness:
  "processField (exampleLib Map.empty noFiles noJson) ''1,2,x'' (TSlice (plain ''[]int'') intT)
      (VSlice [VInt 7])
    = (Some (ExternalError ''invalid syntax: x''), VSlice [VInt 7])
   \<and> processField (exampleLib Map.empty noFiles noJson) ''a,b,c''
      (TSlice (plain ''[]string'') stringT) (VSlice [])
    = (None, VSlice [VString ''a'', VString ''b'', VString ''c''])"
proof -
  let ?L = "exampleLib Map.empty noFiles noJson"
  have n1: "noCaps (TSlice (plain ''[]int'') intT)" by (simp add: example_defs)
  have n2: "noCaps (TSlice (plain ''[]string'') stringT)" by (simp add: example_defs)
  have i: "intT = TInt (plain ''int'') W \<and> noCaps intT
      \<and> \<not> (W = W64 \<and> PkgPath (plain ''int'') = ''time'' \<and> tName (plain ''int'') = ''Duration'')
      \<and> ParseInt ?L ''1'' 0 (Bits ?L W) = Inr 1 \<and> ParseInt ?L ''2'' 0 (Bits ?L W) = Inr 2
      \<and> ParseInt ?L ''x'' 0 (Bits ?L W) = Inl (ExternalError ''invalid syntax: x'')"
    by (simp add: example_defs)
  have s: "stringT = TString (plain ''string'') \<and> noCaps stringT" by (simp add: example_defs)
  from C6_slice_conversion [OF n1, where L = ?L and f = "VSlice [VInt 7]" and ei = "plain ''int''"
      and w = W and a = 1 and b = 2 and e = "ExternalError ''invalid syntax: x''"] i
  have a: "processField ?L ''1,2,x'' (TSlice (plain ''[]int'') intT) (VSlice [VInt 7])
    = (Some (ExternalError ''invalid syntax: x''), VSlice [VInt 7])"
    by blast
  from C6_slice_conversion [OF n2, where L = ?L and f = "VSlice []" and ei = "plain ''string''"] s
  have b: "processField ?L ''a,b,c'' (TSlice (plain ''[]string'') stringT) (VSlice [])
    = (None, VSlice [VString ''a'', VString ''b'', VString ''c''])"
    by blast
  from a b show ?thesis by blast
qed

subsection \<open>C7: custom conversions first\<close>

text \<open>
  Claim C7: \<open>processField\<close> delegates to the first capability found in the order
  \<^verbatim>\<open>Decode\<close> on the value, \<^verbatim>\<open>Decode\<close> on the address, \<^verbatim>\<open>Set\<close> on the value,
  \<^verbatim>\<open>Set\<close> on the address, \<^verbatim>\<open>UnmarshalText\<close> on the value, \<^verbatim>\<open>UnmarshalText\<close> on
  the address, and returns what that method returns; the built-in conversion runs only
  when none of the six is there.
\<close>

theorem C7_capability_priority:
  "processField L value typ field =
     (case mDecode (methods (info typ)) of Some m \<Rightarrow> m value field | None \<Rightarrow>
     (case mDecode (ptr_methods (info typ)) of Some m \<Rightarrow> m value field | None \<Rightarrow>
     (case mSet (methods (info typ)) of Some m \<Rightarrow> m value field | None \<Rightarrow>
     (case mSet (ptr_methods (info typ)) of Some m \<Rightarrow> m value field | None \<Rightarrow>
     (case mUnmarshalText (methods (info typ)) of Some m \<Rightarrow> m value field | None \<Rightarrow>
     (case mUnmarshalText (ptr_methods (info typ)) of Some m \<Rightarrow> m value field | None \<Rightarrow>
        builtinConversion L value typ field))))))"
  by (simp add: decoderFrom_def setterFrom_def textUnmarshaler_def interfaceFrom_def
        builtinConversion_def split: option.splits)

text \<open>
  A string type with \<^verbatim>\<open>Set\<close> and \<^verbatim>\<open>UnmarshalText\<close> on the value and \<^verbatim>\<open>Decode\<close> on the pointer
  only: \<^verbatim>\<open>Decode\<close> is the one that runs.
\<close>

theorem C7_witness:
  "processField (exampleLib Map.empty noFiles noJson) ''debug''
     (TString \<lparr>tName = ''Level'', PkgPath = ''main'', tString = ''main.Level'',
        methods = \<lparr>mDecode = None, mSet = Some (stamp ''set:''),
                    mUnmarshalText = Some (stamp ''text:'')\<rparr>,
        ptr_methods = \<lparr>mDecode = Some (stamp ''decode:''), mSet = Some (stamp ''set:''),
                    mUnmarshalText = Some (stamp ''text:'')\<rparr>\<rparr>)
     (VString [])
   = (None, VString ''decode:debug'')"
  using C7_capability_priority [of "exampleLib Map.empty noFiles noJson" "''debug''"
     "TString \<lparr>tName = ''Level'', PkgPath = ''main'', tString = ''main.Level'',
        methods = \<lparr>mDecode = None, mSet = Some (stamp ''set:''),
                    mUnmarshalText = Some (stamp ''text:'')\<rparr>,
        ptr_methods = \<lparr>mDecode = Some (stamp ''decode:''), mSet = Some (stamp ''set:''),
                    mUnmarshalText = Some (stamp ''text:'')\<rparr>\<rparr>" "VString []"]
  by (simp add: stamp_def del: processField.simps)

subsection \<open>C8: nested structs in the two walks\<close>

text \<open>
  Claim C8: for a settable field \<open>i\<close> that is not ignored and whose handle is a struct (the
  field itself, or what it points to, a nil pointer having been given a zero struct):
  \<^item> when the default pass returns nil, it has run on the nested struct, whatever the
    capabilities of the struct's type and whatever the field's tags: the field holds the
    outcome of that run, in which each plain field of the nested struct is what
    \<open>defaultLeaf\<close> left;
  \<^item> when the environment pass returns nil and the struct's type has none of the three
    capabilities, it has run on the nested struct with the prefix unchanged for an
    anonymous field and the field's key otherwise: each plain field of the nested struct is
    what \<open>envLeaf\<close> left for the key made of that prefix and its name;
  \<^item> when the environment pass returns nil and the struct's type has a capability, the
    field is a leaf: it holds what \<open>envLeaf\<close> left for the field's own key on the whole
    struct.
\<close>

theorem C8_struct_recursion:
  assumes "i < length fts" and "i < length s"
    and "fts ! i = SField name tag anon True typ"
    and "Get tag ''ignored'' \<noteq> ''true''"
    and "resolve typ (s ! i) = (TStruct ti fts', VStruct s0)"
  shows "(processDefaultValues L fts s = (None, s1) \<longrightarrow>
           (\<exists>s0'. processDefaultValues L fts' s0 = (None, s0')
              \<and> s1 ! i = store typ (s ! i) (VStruct s0')
              \<and> (\<forall>k n t a ty. k < length fts' \<and> k < length s0
                    \<and> fts' ! k = SField n t a True ty \<and> Get t ''ignored'' \<noteq> ''true''
                    \<and> Kind ty \<noteq> KPtr \<and> Kind ty \<noteq> KStruct \<longrightarrow>
                    defaultLeaf L n t ty (s0 ! k) = (None, s0' ! k))))
     \<and> (noCaps (TStruct ti fts') \<and> processEnvironmentValues L prefix fts s = (None, s3) \<longrightarrow>
           (\<exists>s0'. processEnvironmentValues L
                      (if anon then prefix else envKey L prefix (envFieldName name tag))
                      fts' s0 = (None, s0')
              \<and> s3 ! i = store typ (s ! i) (VStruct s0')
              \<and> (\<forall>k n t a ty. k < length fts' \<and> k < length s0
                    \<and> fts' ! k = SField n t a True ty \<and> Get t ''ignored'' \<noteq> ''true''
                    \<and> Kind ty \<noteq> KPtr \<and> Kind ty \<noteq> KStruct \<longrightarrow>
                    envLeaf L
                      (envKey L (if anon then prefix else envKey L prefix (envFieldName name tag))
                         (envFieldName n t))
                      (envFieldName n t) ty (s0 ! k) = (None, s0' ! k))))
     \<and> (\<not> noCaps (TStruct ti fts') \<and> processEnvironmentValues L prefix fts s = (None, s3) \<longrightarrow>
           (\<exists>x. envLeaf L (envKey L prefix (envFieldName name tag)) (envFieldName name tag)
                    (TStruct ti fts') (VStruct s0) = (None, x)
              \<and> s3 ! i = store typ (s ! i) x))"
proof -
  let ?inner = "if anon then prefix else envKey L prefix (envFieldName name tag)"
  have D: "\<exists>s0'. processDefaultValues L fts' s0 = (None, s0')
              \<and> s1 ! i = store typ (s ! i) (VStruct s0')
              \<and> (\<forall>k n t a ty. k < length fts' \<and> k < length s0
                    \<and> fts' ! k = SField n t a True ty \<and> Get t ''ignored'' \<noteq> ''true''
                    \<and> Kind ty \<noteq> KPtr \<and> Kind ty \<noteq> KStruct \<longrightarrow>
                    defaultLeaf L n t ty (s0 ! k) = (None, s0' ! k))"
    if d: "processDefaultValues L fts s = (None, s1)"
  proof -
    have "defaultField L name tag typ (s ! i) = (None, s1 ! i)"
      by (rule processDefaultValues_visited [OF d assms(2) assms(1) assms(3) assms(4)])
    with resolved_struct_defaultField [OF assms(5), of L name tag]
    obtain s0' where rec: "processDefaultValues L fts' s0 = (None, s0')"
      and si: "s1 ! i = store typ (s ! i) (VStruct s0')"
      by (auto split: prod.splits)
    have "defaultLeaf L n t ty (s0 ! k) = (None, s0' ! k)"
      if "k < length fts' \<and> k < length s0
            \<and> fts' ! k = SField n t a True ty \<and> Get t ''ignored'' \<noteq> ''true''
            \<and> Kind ty \<noteq> KPtr \<and> Kind ty \<noteq> KStruct" for k n t a ty
      using processDefaultValues_visited [OF rec, of k n t a ty] that
      by (simp add: leaf_defaultField)
    with rec si show ?thesis by blast
  qed
  have E1: "\<exists>s0'. processEnvironmentValues L ?inner fts' s0 = (None, s0')
              \<and> s3 ! i = store typ (s ! i) (VStruct s0')
              \<and> (\<forall>k n t a ty. k < length fts' \<and> k < length s0
                    \<and> fts' ! k = SField n t a True ty \<and> Get t ''ignored'' \<noteq> ''true''
                    \<and> Kind ty \<noteq> KPtr \<and> Kind ty \<noteq> KStruct \<longrightarrow>
                    envLeaf L (envKey L ?inner (envFieldName n t)) (envFieldName n t) ty (s0 ! k)
                      = (None, s0' ! k))"
    if nc: "noCaps (TStruct ti fts')" and e: "processEnvironmentValues L prefix fts s = (None, s3)"
  proof -
    have "envField L prefix name tag anon typ (s ! i) = (None, s3 ! i)"
      by (rule processEnvironmentValues_visited [OF e assms(2) assms(1) assms(3) assms(4)])
    with resolved_struct_envField [OF assms(5) nc, of L prefix name tag anon]
    obtain s0' where rec: "processEnvironmentValues L ?inner fts' s0 = (None, s0')"
      and si: "s3 ! i = store typ (s ! i) (VStruct s0')"
      by (auto split: prod.splits)
    have "envLeaf L (envKey L ?inner (envFieldName n t)) (envFieldName n t) ty (s0 ! k)
            = (None, s0' ! k)"
      if "k < length fts' \<and> k < length s0
            \<and> fts' ! k = SField n t a True ty \<and> Get t ''ignored'' \<noteq> ''true''
            \<and> Kind ty \<noteq> KPtr \<and> Kind ty \<noteq> KStruct" for k n t a ty
      using processEnvironmentValues_visited [OF rec, of k n t a ty] that
      by (simp add: leaf_envField)
    with rec si show ?thesis by blast
  qed
  have E2: "\<exists>x. envLeaf L (envKey L prefix (envFieldName name tag)) (envFieldName name tag)
                    (TStruct ti fts') (VStruct s0) = (None, x)
              \<and> s3 ! i = store typ (s ! i) x"
    if nc: "\<not> noCaps (TStruct ti fts')" and e: "processEnvironmentValues L prefix fts s = (None, s3)"
  proof -
    have "envField L prefix name tag anon typ (s ! i) = (None, s3 ! i)"
      by (rule processEnvironmentValues_visited [OF e assms(2) assms(1) assms(3) assms(4)])
    moreover from nc have "Kind (TStruct ti fts') \<noteq> KStruct \<or> \<not> noCaps (TStruct ti fts')"
      by blast
    ultimately show ?thesis
      using resolved_envField [OF assms(5), of L prefix name tag anon]
      by (auto split: prod.splits)
  qed
  from D E1 E2 show ?thesis by blast
qed

text \<open>
  A struct \<open>Server\<close> with a field \<open>Host\<close>: the default pass sets the default of \<open>Host\<close>, the
  environment pass sets \<open>Host\<close> from \<open>APP_SERVER_HOST\<close>; when the type of \<open>Server\<close> has
  \<^verbatim>\<open>Decode\<close> on its pointer, the environment pass hands the value of \<open>APP_SERVER\<close> to it.
\<close>

theorem C8_witness:
  "processDefaultValues (exampleLib [''APP_SERVER_HOST'' \<mapsto> ''h''] noFiles noJson)
      [SField ''Server'' [] False True
         (TStruct (plain ''main.Server'')
            [SField ''Host'' [(''default'', ''localhost'')] False True stringT])]
      [VStruct [VString []]]
    = (None, [VStruct [VString ''localhost'']])
   \<and> (\<exists>s0'. [VStruct [VString ''localhost'']] ! 0
               = store (TStruct (plain ''main.Server'')
                    [SField ''Host'' [(''default'', ''localhost'')] False True stringT])
                   ([VStruct [VString []]] ! 0) (VStruct s0')
          \<and> defaultLeaf (exampleLib [''APP_SERVER_HOST'' \<mapsto> ''h''] noFiles noJson)
               ''Host'' [(''default'', ''localhost'')] stringT ([VString []] ! 0) = (None, s0' ! 0))
   \<and> processEnvironmentValues (exampleLib [''APP_SERVER_HOST'' \<mapsto> ''h''] noFiles noJson) ''app''
      [SField ''Server'' [] False True
         (TStruct (plain ''main.Server'')
            [SField ''Host'' [(''default'', ''localhost'')] False True stringT])]
      [VStruct [VString []]]
    = (None, [VStruct [VString ''h'']])
   \<and> (\<exists>s0'. [VStruct [VString ''h'']] ! 0
               = store (TStruct (plain ''main.Server'')
                    [SField ''Host'' [(''default'', ''localhost'')] False True stringT])
                   ([VStruct [VString []]] ! 0) (VStruct s0')
          \<and> envLeaf (exampleLib [''APP_SERVER_HOST'' \<mapsto> ''h''] noFiles noJson)
               ''APP_SERVER_HOST'' ''Host'' stringT ([VString []] ! 0) = (None, s0' ! 0))
   \<and> processEnvironmentValues (exampleLib [''APP_SERVER'' \<mapsto> ''h:1''] noFiles noJson) ''app''
      [SField ''Server'' [] False True
         (TStruct \<lparr>tName = ''Server'', PkgPath = ''main'', tString = ''main.Server'',
                    methods = noMethods,
                    ptr_methods = \<lparr>mDecode = Some (stampStruct ''decode:''), mSet = None,
                                    mUnmarshalText = None\<rparr>\<rparr>
            [SField ''Host'' [(''default'', ''localhost'')] False True stringT])]
      [VStruct [VString []]]
    = (None, [VStruct [VString ''decode:h:1'']])
   \<and> (\<exists>x. envLeaf (exampleLib [''APP_SERVER'' \<mapsto> ''h:1''] noFiles noJson)
            ''APP_SERVER'' ''Server''
            (TStruct \<lparr>tName = ''Server'', PkgPath = ''main'', tString = ''main.Server'',
                    methods = noMethods,
                    ptr_methods = \<lparr>mDecode = Some (stampStruct ''decode:''), mSet = None,
                                    mUnmarshalText = None\<rparr>\<rparr>
               [SField ''Host'' [(''default'', ''localhost'')] False True stringT])
            (VStruct [VString []]) = (None, x)
        \<and> [VStruct [VString ''decode:h:1'']] ! 0
            = store (TStruct \<lparr>tName = ''Server'', PkgPath = ''main'', tString = ''main.Server'',
                    methods = noMethods,
                    ptr_methods = \<lparr>mDecode = Some (stampStruct ''decode:''), mSet = None,
                                    mUnmarshalText = None\<rparr>\<rparr>
               [SField ''Host'' [(''default'', ''localhost'')] False True stringT])
                ([VStruct [VString []]] ! 0) x)"
proof -
  let ?L = "exampleLib [''APP_SERVER_HOST'' \<mapsto> ''h''] noFiles noJson"
  let ?tag = "[(''default'', ''localhost'')]"
  let ?inner = "[SField ''Host'' ?tag False True stringT]"
  let ?T = "TStruct (plain ''main.Server'') ?inner"
  let ?fts = "[SField ''Server'' [] False True ?T]"
  let ?s = "[VStruct [VString []]]"
  have d: "processDefaultValues ?L ?fts ?s = (None, [VStruct [VString ''localhost'']])"
    by (simp add: example_defs)
  have e: "processEnvironmentValues ?L ''app'' ?fts ?s = (None, [VStruct [VString ''h'']])"
    by (simp add: example_defs)
  have h1: "0 < length ?fts" by simp
  have h2: "0 < length ?s" by simp
  have h3: "?fts ! 0 = SField ''Server'' [] False True ?T" by simp
  have h4: "Get [] ''ignored'' \<noteq> ''true''" by (simp add: Get_def)
  have h5: "resolve ?T (?s ! 0) = (?T, VStruct [VString []])" by simp
  have nc: "noCaps ?T" by (simp add: example_defs)
  have k: "0 < length ?inner \<and> 0 < length [VString []]
      \<and> ?inner ! 0 = SField ''Host'' ?tag False True stringT \<and> Get ?tag ''ignored'' \<noteq> ''true''
      \<and> Kind stringT \<noteq> KPtr \<and> Kind stringT \<noteq> KStruct"
    by (simp add: Get_def stringT_def)
  have key: "envKey ?L (if False then ''app'' else envKey ?L ''app'' (envFieldName ''Server'' []))
      ''Host'' = ''APP_SERVER_HOST''"
    by (simp add: example_defs)
  have fn: "envFieldName ''Host'' ?tag = ''Host''"
    by (simp add: example_defs)
  note c = C8_struct_recursion [OF h1 h2 h3 h4 h5, where L = ?L and prefix = "''app''"
      and ?s1.0 = "[VStruct [VString ''localhost'']]" and ?s3.0 = "[VStruct [VString ''h'']]"]
  from c [THEN conjunct1, THEN mp, OF d] k
  have a: "\<exists>s0'. [VStruct [VString ''localhost'']] ! 0 = store ?T (?s ! 0) (VStruct s0')
          \<and> defaultLeaf ?L ''Host'' ?tag stringT ([VString []] ! 0) = (None, s0' ! 0)"
    by blast
  from c [THEN conjunct2, THEN conjunct1, THEN mp, OF conjI [OF nc e]] k
  have "\<exists>s0'. [VStruct [VString ''h'']] ! 0 = store ?T (?s ! 0) (VStruct s0')
          \<and> envLeaf ?L
               (envKey ?L (if False then ''app'' else envKey ?L ''app'' (envFieldName ''Server'' []))
                  (envFieldName ''Host'' ?tag))
               (envFieldName ''Host'' ?tag) stringT ([VString []] ! 0) = (None, s0' ! 0)"
    by blast
  then have b: "\<exists>s0'. [VStruct [VString ''h'']] ! 0 = store ?T (?s ! 0) (VStruct s0')
          \<and> envLeaf ?L ''APP_SERVER_HOST'' ''Host'' stringT ([VString []] ! 0) = (None, s0' ! 0)"
    by (simp only: fn key)
  let ?L2 = "exampleLib [''APP_SERVER'' \<mapsto> ''h:1''] noFiles noJson"
  let ?Tc = "TStruct \<lparr>tName = ''Server'', PkgPath = ''main'', tString = ''main.Server'',
                    methods = noMethods,
                    ptr_methods = \<lparr>mDecode = Some (stampStruct ''decode:''), mSet = None,
                                    mUnmarshalText = None\<rparr>\<rparr> ?inner"
  let ?ftsc = "[SField ''Server'' [] False True ?Tc]"
  have ec: "processEnvironmentValues ?L2 ''app'' ?ftsc ?s = (None, [VStruct [VString ''decode:h:1'']])"
    by (simp add: example_defs stampStruct_def)
  have g1: "0 < length ?ftsc" by simp
  have g3: "?ftsc ! 0 = SField ''Server'' [] False True ?Tc" by simp
  have g5: "resolve ?Tc (?s ! 0) = (?Tc, VStruct [VString []])" by simp
  have caps: "\<not> noCaps ?Tc" by (simp add: example_defs)
  have keyc: "envKey ?L2 ''app'' ''Server'' = ''APP_SERVER''"
    by (simp add: example_defs)
  have fnc: "envFieldName ''Server'' [] = ''Server''"
    by (simp add: example_defs)
  note cc = C8_struct_recursion [OF g1 h2 g3 h4 g5, where L = ?L2 and prefix = "''app''"
      and ?s3.0 = "[VStruct [VString ''decode:h:1'']]"]
  from cc [THEN conjunct2, THEN conjunct2, THEN mp, OF conjI [OF caps ec]]
  have cl: "\<exists>x. envLeaf ?L2 ''APP_SERVER'' ''Server'' ?Tc (VStruct [VString []]) = (None, x)
        \<and> [VStruct [VString ''decode:h:1'']] ! 0 = store ?Tc (?s ! 0) x"
    by (simp only: fnc keyc)
  from d a e b ec cl show ?thesis by blast
qed

subsection \<open>C9: ignored fields\<close>

text \<open>
  Claim C9: a field tagged \<^verbatim>\<open>ignored:"true"\<close> is left as it is by the default pass and
  by the environment pass, whatever its other tags and whatever the environment holds,
  and whether or not the pass fails on another field. When no file sets the field, it
  holds after \<open>Process\<close> the value it had before (its zero value, if it was zero).
\<close>

theorem C9_ignored_untouched:
  assumes "i < length fts" and "length s = length fts"
    and "fts ! i = SField name tag anon exported typ"
    and "Get tag ''ignored'' = ''true''"
    and "jsonKeepsField L configPaths (TStruct j fts) i"
  shows "snd (processDefaultValues L fts s) ! i = s ! i
         \<and> snd (processEnvironmentValues L prefix fts s) ! i = s ! i
         \<and> specFields (snd (Process L prefix configPaths
               (Some (TPtr pi (TStruct j fts), VPtr (Some (VStruct s)))))) ! i = s ! i"
proof -
  have ilen: "i < length s" using assms(1,2) by simp
  have ign: "\<not> exported \<or> Get tag ''ignored'' = ''true''" using assms(4) by simp
  have dflt: "\<And>s0. i < length s0 \<Longrightarrow> snd (processDefaultValues L fts s0) ! i = s0 ! i"
    by (rule processDefaultValues_skipped [OF _ assms(1) assms(3) ign])
  have env: "\<And>s0. i < length s0 \<Longrightarrow> snd (processEnvironmentValues L prefix fts s0) ! i = s0 ! i"
    by (rule processEnvironmentValues_skipped [OF _ assms(1) assms(3) ign])
  obtain e1 s1 where d: "processDefaultValues L fts s = (e1, s1)"
    by (cases "processDefaultValues L fts s")
  have l1: "length s1 = length s"
    using processDefaultValues_length [of L fts s] d by simp
  have k1: "s1 ! i = s ! i" using dflt [OF ilen] d by simp
  from assms(5) obtain s2 where
    js: "snd (processJson L configPaths (TStruct j fts) (VStruct s1)) = VStruct s2"
    and l2: "length s2 = length s1" and k2: "s2 ! i = s1 ! i"
    unfolding jsonKeepsField_def by blast
  have jn: "fst (processJson L configPaths (TStruct j fts) (VStruct s1)) = None"
    by (rule processJson_nil)
  have jeq: "processJson L configPaths (TStruct j fts) (VStruct s1) = (None, VStruct s2)"
    using js jn by (simp add: prod_eq_iff)
  have i2: "i < length s2" using ilen l1 l2 by simp
  have k3: "snd (processEnvironmentValues L prefix fts s2) ! i = s ! i"
    using env [OF i2] k2 k1 by simp
  have "specFields (snd (Process L prefix configPaths
               (Some (TPtr pi (TStruct j fts), VPtr (Some (VStruct s)))))) ! i = s ! i"
  proof (cases e1)
    case (Some err)
    then show ?thesis using d k1
      by (simp add: Process_def specFields_struct)
  next
    case None
    then show ?thesis using d jeq k3
      by (auto simp: Process_def specFields_struct split: prod.splits)
  qed
  with dflt [OF ilen] env [OF ilen] show ?thesis by simp
qed

text \<open>
  An ignored string field with a default tag and a matching environment variable, zero
  before the call: zero after it.
\<close>

theorem C9_witness:
  "Get [(''ignored'', ''true''), (''default'', ''d'')] ''ignored'' = ''true''
   \<and> lookupEnv (exampleLib [''APP_SECRET'' \<mapsto> ''e''] noFiles noJson) ''APP_SECRET'' = Some ''e''
   \<and> specFields (snd (Process (exampleLib [''APP_SECRET'' \<mapsto> ''e''] noFiles noJson) ''app'' []
        (Some (TPtr (plain ''*main.Spec'') (TStruct (plain ''main.Spec'')
            [SField ''Secret'' [(''ignored'', ''true''), (''default'', ''d'')] False True stringT]),
          VPtr (Some (VStruct [zero stringT])))))) ! 0 = zero stringT"
proof -
  let ?L = "exampleLib [''APP_SECRET'' \<mapsto> ''e''] noFiles noJson"
  let ?tag = "[(''ignored'', ''true''), (''default'', ''d'')]"
  let ?fts = "[SField ''Secret'' ?tag False True stringT]"
  have h1: "0 < length ?fts" by simp
  have h2: "length [zero stringT] = length ?fts" by simp
  have h3: "?fts ! 0 = SField ''Secret'' ?tag False True stringT" by simp
  have h4: "Get ?tag ''ignored'' = ''true''" by (simp add: Get_def)
  have h5: "jsonKeepsField ?L [] (TStruct (plain ''main.Spec'') ?fts) 0"
    by (simp add: jsonKeepsField_def)
  have e: "lookupEnv ?L ''APP_SECRET'' = Some ''e''" by (simp add: example_defs)
  from C9_ignored_untouched [OF h1 h2 h3 h4 h5, of "''app''" "plain ''*main.Spec''"]
  have c: "specFields (snd (Process ?L ''app'' []
        (Some (TPtr (plain ''*main.Spec'') (TStruct (plain ''main.Spec'') ?fts),
          VPtr (Some (VStruct [zero stringT])))))) ! 0 = [zero stringT] ! 0"
    by blast
  from h4 e c show ?thesis by (simp only: nth_Cons_0) 
qed

subsection \<open>C10: an empty environment value on a slice of strings\<close>

text \<open>
  Claim C10: splitting the empty string on commas gives one empty piece, so a settable
  slice-of-string field (no capabilities on the slice type or on its element type) whose
  environment key is present with the empty string holds the slice of one empty string
  after a call of \<open>Process\<close> that returns nil.
\<close>

theorem C10_empty_value_one_element:
  assumes "i < length fts" and "length s = length fts"
    and "fts ! i = SField name tag anon True (TSlice si (TString ei))"
    and "Get tag ''ignored'' \<noteq> ''true''"
    and "noCaps (TSlice si (TString ei))" and "noCaps (TString ei)"
    and "jsonKeepsStruct L configPaths (TStruct j fts)"
    and "lookupEnv L (envKey L prefix (envFieldName name tag)) = Some []"
    and "Process L prefix configPaths (Some (TPtr pi (TStruct j fts), VPtr (Some (VStruct s))))
           = (None, spec')"
  shows "Split [] CHR '','' = [[]] \<and> specFields spec' ! i = VSlice [VString []]"
proof -
  from Process_nil [OF assms(9)] obtain s1 s2 s3 where
    d: "processDefaultValues L fts s = (None, s1)"
    and js: "processJson L configPaths (TStruct j fts) (VStruct s1) = (None, s2)"
    and e: "processEnvironmentValues L prefix fts (fieldsOf s2) = (None, s3)"
    and sp: "spec' = Some (TPtr pi (TStruct j fts), VPtr (Some (VStruct s3)))"
    by blast
  have l1: "length s1 = length s"
    using processDefaultValues_length [of L fts s] d by simp
  from assms(7) js obtain s2' where s2: "s2 = VStruct s2'" and l2: "length s2' = length s1"
    unfolding jsonKeepsStruct_def by (metis snd_conv)
  have i2: "i < length s2'" using assms(1,2) l1 l2 by simp
  have "envField L prefix name tag anon (TSlice si (TString ei)) (s2' ! i) = (None, s3 ! i)"
    using processEnvironmentValues_visited [OF _ i2 assms(1) assms(3) assms(4)] e s2 by simp
  then have "envLeaf L (envKey L prefix (envFieldName name tag)) (envFieldName name tag)
       (TSlice si (TString ei)) (s2' ! i) = (None, s3 ! i)"
    by (simp add: leaf_envField)
  then have "s3 ! i = VSlice [VString []]"
    using assms(8) emptySlice_processField [OF assms(5,6), of L "s2' ! i"]
    by (simp add: envLeaf_def del: processField.simps)
  then show ?thesis
    by (simp add: sp specFields_struct)
qed

text \<open>
  The field \<open>Tags []string\<close> with \<open>APP_TAGS\<close> present and empty.
\<close>

theorem C10_witness:
  "lookupEnv (exampleLib [''APP_TAGS'' \<mapsto> []] noFiles noJson) ''APP_TAGS'' = Some []
   \<and> Process (exampleLib [''APP_TAGS'' \<mapsto> []] noFiles noJson) ''app'' []
      (specPtr [SField ''Tags'' [] False True (TSlice (plain ''[]string'') stringT)] [VSlice []])
    = (None, specPtr [SField ''Tags'' [] False True (TSlice (plain ''[]string'') stringT)]
               [VSlice [VString []]])
   \<and> specFields (specPtr [SField ''Tags'' [] False True (TSlice (plain ''[]string'') stringT)]
               [VSlice [VString []]]) ! 0 = VSlice [VString []]"
proof -
  let ?L = "exampleLib [''APP_TAGS'' \<mapsto> []] noFiles noJson"
  let ?fts = "[SField ''Tags'' [] False True (TSlice (plain ''[]string'') (TString (plain ''string'')))]"
  have p: "Process ?L ''app'' []
      (Some (TPtr (plain ''*main.Spec'') (TStruct (plain ''main.Spec'') ?fts),
             VPtr (Some (VStruct [VSlice []]))))
    = (None, specPtr ?fts [VSlice [VString []]])"
    by (simp add: example_defs)
  have h1: "0 < length ?fts" by simp
  have h2: "length [VSlice []] = length ?fts" by simp
  have h3: "?fts ! 0 = SField ''Tags'' [] False True (TSlice (plain ''[]string'') (TString (plain ''string'')))"
    by simp
  have h4: "Get [] ''ignored'' \<noteq> ''true''" by (simp add: Get_def)
  have h5: "noCaps (TSlice (plain ''[]string'') (TString (plain ''string'')))" by (simp add: example_defs)
  have h6: "noCaps (TString (plain ''string''))" by (simp add: example_defs)
  have h7: "jsonKeepsStruct ?L [] (TStruct (plain ''main.Spec'') ?fts)"
    by (simp add: jsonKeepsStruct_def)
  have h8: "lookupEnv ?L (envKey ?L ''app'' (envFieldName ''Tags'' [])) = Some []"
    by (simp add: example_defs)
  have e: "lookupEnv ?L ''APP_TAGS'' = Some []" by (simp add: example_defs)
  from C10_empty_value_one_element [OF h1 h2 h3 h4 h5 h6 h7 h8 p]
  have c: "specFields (specPtr ?fts [VSlice [VString []]]) ! 0 = VSlice [VString []]"
    by blast
  from e p c show ?thesis by (simp only: specPtr_def stringT_def)
qed

end
